theory Spec2Isabelle
  imports Complex_Main "HOL-Library.Multiset" "HOL-Library.Char_ord" "HOL-Library.List_Lexorder"
begin

section \<open>The statistics commands of the in-house bot (cogs/stats\_cog.py)\<close>

text \<open>
  The module holds six chat commands: \<open>history\<close>, \<open>rank\<close>, \<open>ranking\<close>, \<open>mmr\<close>,
  \<open>mmr_history\<close> and \<open>champions_stats\<close>. Each reads the record store through the ORM
  session and sends one table or one plot. The embedding keeps what each command computes
  and leaves the rendering (\<open>tabulate\<close>, the pixels of matplotlib, the \<open>:.2f\<close> format) out:
  a table is the list of its rows, a plot is the list of the calls made on the figure.
\<close>

subsection \<open>Data model\<close>

text \<open>
  A datetime is a point on a linear time axis, here the integer number of seconds since
  the epoch. Ratings are Python floats; the model reads them as real numbers (only their
  order and their equality are used below, NaN is not modelled).
\<close>

type_synonym datetime = int

datatype py_error = KeyError | ZeroDivisionError | TypeError | ArgumentError

text \<open>The ORM classes \<open>Game\<close>, \<open>GameParticipant\<close> and \<open>PlayerRating\<close>, with the columns the
  commands read. \<open>rating.player.name\<close> is reached through the ORM relationship from a
  rating row to its player; the row carries it as \<open>pr_player_name\<close>.\<close>

record game =
  g_id :: nat
  g_date :: datetime
  g_winner :: string

record game_participant =
  gp_game_id :: nat
  gp_player_id :: nat
  gp_role :: string
  gp_champion_id :: nat
  gp_team :: string
  gp_mmr :: real

record player_rating =
  pr_player_id :: nat
  pr_player_name :: string
  pr_role :: string
  pr_mmr :: real

text \<open>\<open>player.ratings\<close> is a dictionary from role to the rating row; iteration follows
  insertion order, so it is an association list (keys are unique in a dictionary).\<close>

record player =
  discord_id :: nat
  name :: string
  ratings :: "(string \<times> player_rating) list"

text \<open>The tables the session queries, each a list of rows in the order of the table
  (the order of insertion). A query without \<open>ORDER BY\<close> returns its rows in the order of
  the table it scans.\<close>

record store =
  games :: "game list"
  participants :: "game_participant list"
  player_ratings :: "player_rating list"

subsection \<open>The participation query of \<open>mmr_history\<close>\<close>

text \<open>
  \<^verbatim>\<open>session.query(Game, GameParticipant).join(GameParticipant)
       .filter(GameParticipant.player_id == player.discord_id)\<close>:
  the join of games and participant rows on the game identifier, restricted to one player.
  The rows come in the order of the participant table, each with its game.
\<close>

definition player_join :: "store \<Rightarrow> nat \<Rightarrow> (game \<times> game_participant) list" where
  "player_join s pid =
     [(g, p). p \<leftarrow> participants s, g \<leftarrow> games s, gp_game_id p = g_id g, gp_player_id p = pid]"

text \<open>\<^verbatim>\<open>.filter(Game.date > date_start)\<close>, for a lower bound that is a datetime.\<close>

definition participants_query ::
  "store \<Rightarrow> nat \<Rightarrow> datetime \<Rightarrow> (game \<times> game_participant) list" where
  "participants_query s pid date_start =
     filter (\<lambda>(g, p). g_date g > date_start) (player_join s pid)"

subsection \<open>\<open>mmr_history\<close>: the rating series per role\<close>

text \<open>The value of the \<open>defaultdict\<close>: \<open>{'dates': [], 'mmr': []}\<close>.\<close>

record history_entry =
  h_dates :: "datetime list"
  h_mmr :: "real list"

text \<open>
  One pass of the first loop: \<open>mmr_history[role]['dates'].append(date)\<close> and
  \<open>mmr_history[role]['mmr'].append(mmr)\<close>. A role seen for the first time gets a fresh entry
  at the end of the dictionary; a known role keeps its place.
\<close>

fun add_point ::
  "string \<Rightarrow> datetime \<Rightarrow> real \<Rightarrow> (string \<times> history_entry) list \<Rightarrow> (string \<times> history_entry) list" where
  "add_point r d m [] = [(r, \<lparr>h_dates = [d], h_mmr = [m]\<rparr>)]"
| "add_point r d m ((k, e) # rest) =
     (if k = r then (k, e\<lparr>h_dates := h_dates e @ [d], h_mmr := h_mmr e @ [m]\<rparr>) # rest
      else (k, e) # add_point r d m rest)"

definition group_history :: "(game \<times> game_participant) list \<Rightarrow> (string \<times> history_entry) list" where
  "group_history ps = fold (\<lambda>(g, p). add_point (gp_role p) (g_date g) (gp_mmr p)) ps []"

text \<open>
  The second loop, over the roles of the dictionary: append \<open>dateparser.parse('now')\<close> to
  the dates and \<open>player.ratings[role].mmr\<close> to the ratings. The clock is read once per
  role; \<open>clock k\<close> is the reading of the \<open>k\<close>-th call of the command. A role without a
  rating row raises \<open>KeyError\<close>.
\<close>

fun append_current ::
  "(nat \<Rightarrow> datetime) \<Rightarrow> (string \<times> player_rating) list \<Rightarrow> nat \<Rightarrow>
   (string \<times> history_entry) list \<Rightarrow> py_error + (string \<times> history_entry) list" where
  "append_current clock rts k [] = Inr []"
| "append_current clock rts k ((role, e) # rest) =
     (case map_of rts role of
        None \<Rightarrow> Inl KeyError
      | Some rating \<Rightarrow>
          (case append_current clock rts (Suc k) rest of
             Inl err \<Rightarrow> Inl err
           | Inr rest' \<Rightarrow>
               Inr ((role, e\<lparr>h_dates := h_dates e @ [clock k],
                             h_mmr := h_mmr e @ [pr_mmr rating]\<rparr>) # rest')))"

text \<open>
  \<open>dateparser.parse\<close> is an external library: a parameter, from the current time and the
  text to a datetime, \<open>None\<close> when the text is not understood. \<open>if not date_start\<close> holds
  for \<open>None\<close> and for the empty string.
\<close>

type_synonym dateparser = "datetime \<Rightarrow> string \<Rightarrow> datetime option"

definition resolve_date_start :: "dateparser \<Rightarrow> datetime \<Rightarrow> string option \<Rightarrow> datetime option" where
  "resolve_date_start parse now date_start =
     (case date_start of
        None \<Rightarrow> parse now ''one month ago''
      | Some txt \<Rightarrow> if txt = [] then parse now ''one month ago'' else parse now txt)"

text \<open>
  The local \<open>participants\<close> of the command: the query, with the resolved lower bound.
  The player is the one \<open>get_player\<close> found; the first clock reading resolves the bound.
  When \<open>dateparser.parse\<close> returned \<open>None\<close> the comparison \<open>Game.date > None\<close> cannot be
  built: SQLAlchemy raises \<open>ArgumentError\<close>.
\<close>

definition history_participants ::
  "dateparser \<Rightarrow> (nat \<Rightarrow> datetime) \<Rightarrow> store \<Rightarrow> player \<Rightarrow> string option \<Rightarrow>
   py_error + (game \<times> game_participant) list" where
  "history_participants parse clock s pl date_start =
     (case resolve_date_start parse (clock 0) date_start of
        None \<Rightarrow> Inl ArgumentError
      | Some d \<Rightarrow> Inr (participants_query s (discord_id pl) d))"

text \<open>The dictionary \<open>mmr_history\<close> when the second loop has ended: the series handed to
  \<open>plt.plot\<close>, one per role, in the order of the legend; or the error raised on the way.\<close>

definition mmr_history ::
  "dateparser \<Rightarrow> (nat \<Rightarrow> datetime) \<Rightarrow> store \<Rightarrow> player \<Rightarrow> string option \<Rightarrow>
   py_error + (string \<times> history_entry) list" where
  "mmr_history parse clock s pl date_start =
     (case history_participants parse clock s pl date_start of
        Inl err \<Rightarrow> Inl err
      | Inr rows \<Rightarrow> append_current clock (ratings pl) 1 (group_history rows))"

text \<open>
  What the command draws and sends. \<open>pyplot\<close> keeps one figure for the whole process; the
  command never opens a new one and never clears it, so the figure holds every call made
  on it since the process started. The figure is the list of these calls, and the image
  saved from it shows what they drew.
\<close>

datatype plt_call =
    Plot "datetime list" "real list"
  | Legend "string list"
  | Title string
  | Glow_effects

text \<open>The calls of \<open>plt.plot\<close> made by the second loop: one per role, after both appends.
  A role without a rating row raises before its series is plotted, and the series
  plotted before it stay on the figure.\<close>

fun plot_calls ::
  "(nat \<Rightarrow> datetime) \<Rightarrow> (string \<times> player_rating) list \<Rightarrow> nat \<Rightarrow>
   (string \<times> history_entry) list \<Rightarrow> plt_call list" where
  "plot_calls clock rts k [] = []"
| "plot_calls clock rts k ((role, e) # rest) =
     (case map_of rts role of
        None \<Rightarrow> []
      | Some rating \<Rightarrow>
          Plot (h_dates e @ [clock k]) (h_mmr e @ [pr_mmr rating])
            # plot_calls clock rts (Suc k) rest)"

text \<open>The file that is sent: \<open>discord.File(temp.name, filename=temp.name)\<close>, the image
  saved from the figure under the name of the temporary file.\<close>

record plot_file =
  pf_filename :: string
  pf_image :: "plt_call list"

text \<open>
  The command as a whole. \<open>temp_name\<close> is the name \<open>tempfile.NamedTemporaryFile\<close> drew
  and \<open>fig\<close> the figure as earlier calls left it. The result is the file sent, or the
  error, together with the figure as this call leaves it.
\<close>

definition mmr_history_command ::
  "dateparser \<Rightarrow> (nat \<Rightarrow> datetime) \<Rightarrow> string \<Rightarrow> plt_call list \<Rightarrow> store \<Rightarrow> player \<Rightarrow>
   string option \<Rightarrow> (py_error + plot_file) \<times> plt_call list" where
  "mmr_history_command parse clock temp_name fig s pl date_start =
     (case history_participants parse clock s pl date_start of
        Inl err \<Rightarrow> (Inl err, fig)
      | Inr rows \<Rightarrow>
          (let plotted = fig @ plot_calls clock (ratings pl) 1 (group_history rows)
           in case append_current clock (ratings pl) 1 (group_history rows) of
                Inl err \<Rightarrow> (Inl err, plotted)
              | Inr series \<Rightarrow>
                  (let drawn = plotted @
                         [Legend (map fst series),
                          Title (''MMR variation in the last month for '' @ name pl),
                          Glow_effects]
                   in (Inr \<lparr>pf_filename = temp_name, pf_image = drawn\<rparr>, drawn))))"

subsection \<open>\<open>history\<close>: the match history table\<close>

record history_row =
  hr_game_id :: nat
  hr_date :: int
  hr_role :: string
  hr_champion :: string
  hr_result :: string

text \<open>
  \<open>games_list\<close> is what \<open>player.get_latest_games\<close> returned and \<open>get_name\<close> is the
  champion name lookup of the bot, both outside this module. \<open>game.date.date()\<close> is the day
  of the datetime; \<open>get_name(...) or 'Unknown'\<close> replaces \<open>None\<close> and the empty name.
\<close>

definition history ::
  "(nat \<Rightarrow> string option) \<Rightarrow> (game \<times> game_participant) list \<Rightarrow> history_row list" where
  "history get_name games_list =
     map (\<lambda>(g, p).
            \<lparr>hr_game_id = g_id g,
             hr_date = g_date g div 86400,
             hr_role = gp_role p,
             hr_champion =
               (case get_name (gp_champion_id p) of
                  None \<Rightarrow> ''Unknown''
                | Some n \<Rightarrow> if n = [] then ''Unknown'' else n),
             hr_result = (if g_winner g = gp_team p then ''Win'' else ''Loss'')\<rparr>)
         games_list"

subsection \<open>\<open>rank\<close>: the ranks of a player\<close>

text \<open>\<open>str.capitalize\<close> on ASCII text: first character upper case, the rest lower case.\<close>

definition upper_char :: "char \<Rightarrow> char" where
  "upper_char c =
     (case map_of (zip ''abcdefghijklmnopqrstuvwxyz'' ''ABCDEFGHIJKLMNOPQRSTUVWXYZ'') c of
        None \<Rightarrow> c | Some u \<Rightarrow> u)"

definition lower_char :: "char \<Rightarrow> char" where
  "lower_char c =
     (case map_of (zip ''ABCDEFGHIJKLMNOPQRSTUVWXYZ'' ''abcdefghijklmnopqrstuvwxyz'') c of
        None \<Rightarrow> c | Some l \<Rightarrow> l)"

definition capitalize :: "string \<Rightarrow> string" where
  "capitalize s = (case s of [] \<Rightarrow> [] | c # cs \<Rightarrow> upper_char c # map lower_char cs)"

text \<open>\<open>str(n)\<close> for a natural number: its decimal digits.\<close>

definition digit_char :: "nat \<Rightarrow> char" where
  "digit_char d = ''0123456789'' ! (d mod 10)"

function str_nat :: "nat \<Rightarrow> string" where
  "str_nat n = (if n < 10 then [digit_char n] else str_nat (n div 10) @ [digit_char (n mod 10)])"
  by pat_completeness auto
termination
  by (relation "measure id") auto

declare str_nat.simps [simp del]

text \<open>
  \<open>engine.ordinal\<close> of the inflect library on a number: the number followed by the suffix
  of its table \<open>nth\<close>, looked up at \<open>n % 100\<close> (which holds 0 to 9 and 11, 12, 13) and
  otherwise at \<open>n % 10\<close>.
\<close>

definition nth_suffix :: "nat \<Rightarrow> string" where
  "nth_suffix n =
     (let k = (if n mod 100 < 10 \<or> n mod 100 = 11 \<or> n mod 100 = 12 \<or> n mod 100 = 13
               then n mod 100 else n mod 10)
      in if k = 1 then ''st'' else if k = 2 then ''nd'' else if k = 3 then ''rd'' else ''th'')"

definition ordinal :: "nat \<Rightarrow> string" where
  "ordinal n = str_nat n @ nth_suffix n"

text \<open>
  The command: one row per entry of \<open>player.ratings\<close> (the loop visits every key and reads
  its value), then \<open>sorted(table, key=lambda x: x[1])\<close>, a stable sort on the second
  column, which is a string. \<open>get_rank\<close> is the method \<open>PlayerRating.get_rank\<close> with the
  session applied, outside this module.
\<close>

definition rank_row :: "(player_rating \<Rightarrow> nat) \<Rightarrow> player_rating \<Rightarrow> string \<times> string" where
  "rank_row get_rank rating = (capitalize (pr_role rating), ordinal (get_rank rating))"

definition rank :: "(player_rating \<Rightarrow> nat) \<Rightarrow> player \<Rightarrow> (string \<times> string) list" where
  "rank get_rank pl = sort_key snd (map (rank_row get_rank) (map snd (ratings pl)))"

subsection \<open>\<open>ranking\<close>: the leaderboard of a role\<close>

text \<open>
  \<^verbatim>\<open>session.query(PlayerRating).filter(PlayerRating.role == clean_role)
       .order_by(- PlayerRating.mmr).limit(20)\<close>.
  The order has one key, the negated rating. Rows of equal rating stay in the scan order
  of the store.
\<close>

definition role_ranking :: "store \<Rightarrow> string \<Rightarrow> player_rating list" where
  "role_ranking s clean_role =
     take 20 (sort_key (\<lambda>r. - pr_mmr r) (filter (\<lambda>r. pr_role r = clean_role) (player_ratings s)))"

record ranking_row =
  rk_rank :: string
  rk_name :: string
  rk_mmr :: real
  rk_games :: nat

definition ranking_table :: "(player_rating \<Rightarrow> nat) \<Rightarrow> store \<Rightarrow> string \<Rightarrow> ranking_row list" where
  "ranking_table get_games s clean_role =
     map (\<lambda>(rank, rating).
            \<lparr>rk_rank = ordinal (rank + 1),
             rk_name = pr_player_name rating,
             rk_mmr = pr_mmr rating,
             rk_games = get_games rating\<rparr>)
         (List.enumerate 0 (role_ranking s clean_role))"

text \<open>
  What the command sends, in order. \<open>extractOne\<close> is \<open>rapidfuzz.process.extractOne\<close>, a
  parameter: the best choice and its score, \<open>None\<close> when there is no choice (unpacking it
  raises \<open>TypeError\<close>). \<open>roles_list\<close> is a constant of \<open>sqlite_utils\<close>, a parameter too, and
  \<open>get_games\<close> is the method \<open>PlayerRating.get_games\<close> with the session applied.
\<close>

datatype message = Role_not_understood | Ranking_table "ranking_row list"

definition ranking ::
  "(string \<Rightarrow> string list \<Rightarrow> (string \<times> real) option) \<Rightarrow> string list \<Rightarrow>
   (player_rating \<Rightarrow> nat) \<Rightarrow> store \<Rightarrow> string \<Rightarrow> py_error + message list" where
  "ranking extractOne roles_list get_games s role =
     (case extractOne role roles_list of
        None \<Rightarrow> Inl TypeError
      | Some (clean_role, score) \<Rightarrow>
          Inr ((if score < 80 then [Role_not_understood] else [])
               @ [Ranking_table (ranking_table get_games s clean_role)]))"

subsection \<open>\<open>mmr\<close> and \<open>champions_stats\<close>: win rates\<close>

text \<open>\<open>wins / games * 100\<close>: Python's true division raises on a zero divisor.\<close>

definition winrate :: "int \<Rightarrow> int \<Rightarrow> py_error + real" where
  "winrate w n =
     (if n = 0 then Inl ZeroDivisionError else Inr (real_of_int w / real_of_int n * 100))"

text \<open>\<open>stats\<close> is the mapping \<open>player.get_roles_stats\<close> returned (a method outside this
  module) for the date that \<open>dateparser.parse\<close> resolved, from role to an object with
  \<open>games\<close> and \<open>wins\<close>.\<close>

record role_stats =
  rs_games :: int
  rs_wins :: int

record mmr_row =
  mr_role :: string
  mr_mmr :: real
  mr_games :: int
  mr_winrate :: real

fun mmr_rows ::
  "(string \<times> player_rating) list \<Rightarrow> (string \<times> role_stats) list \<Rightarrow> py_error + mmr_row list" where
  "mmr_rows rts [] = Inr []"
| "mmr_rows rts ((role, st) # rest) =
     (case map_of rts role of
        None \<Rightarrow> Inl KeyError
      | Some rating \<Rightarrow>
          (case winrate (rs_wins st) (rs_games st) of
             Inl err \<Rightarrow> Inl err
           | Inr w \<Rightarrow>
               (case mmr_rows rts rest of
                  Inl err \<Rightarrow> Inl err
                | Inr rows \<Rightarrow>
                    Inr (\<lparr>mr_role = capitalize role, mr_mmr = pr_mmr rating,
                          mr_games = rs_games st, mr_winrate = w\<rparr> # rows))))"

definition mmr :: "player \<Rightarrow> (string \<times> role_stats) list \<Rightarrow> py_error + mmr_row list" where
  "mmr pl stats =
     (case mmr_rows (ratings pl) stats of
        Inl err \<Rightarrow> Inl err
      | Inr table \<Rightarrow> Inr (sort_key (\<lambda>x. - mr_games x) table))"

record champion_stats =
  cs_role :: string
  cs_games :: int
  cs_wins :: int

record champion_row =
  cr_champion :: "string option"
  cr_role :: string
  cr_games :: int
  cr_winrate :: real

fun champions_rows ::
  "(nat \<Rightarrow> string option) \<Rightarrow> (nat \<times> champion_stats) list \<Rightarrow> py_error + champion_row list" where
  "champions_rows get_name [] = Inr []"
| "champions_rows get_name ((champion_id, st) # rest) =
     (case winrate (cs_wins st) (cs_games st) of
        Inl err \<Rightarrow> Inl err
      | Inr w \<Rightarrow>
          (case champions_rows get_name rest of
             Inl err \<Rightarrow> Inl err
           | Inr rows \<Rightarrow>
               Inr (\<lparr>cr_champion = get_name champion_id, cr_role = capitalize (cs_role st),
                     cr_games = cs_games st, cr_winrate = w\<rparr> # rows)))"

definition champions_stats ::
  "(nat \<Rightarrow> string option) \<Rightarrow> (nat \<times> champion_stats) list \<Rightarrow> py_error + champion_row list" where
  "champions_stats get_name stats =
     (case champions_rows get_name stats of
        Inl err \<Rightarrow> Inl err
      | Inr table \<Rightarrow> Inr (sort_key (\<lambda>x. - cr_games x) table))"

subsection \<open>The aggregation behind the stats mappings\<close>

text \<open>
  Modelled from the spec: the rows an aggregation scans. \<open>Player.get_roles_stats\<close> and
  \<open>Player.get_champions_stats\<close> are methods of the repository that are not in this module.
  The specification (4.1) has them scan the participation history of the player, filtered to
  the rows with game date after the bound; an absent bound means no bound.
\<close>

definition aggregated_rows :: "store \<Rightarrow> player \<Rightarrow> datetime option \<Rightarrow> (game \<times> game_participant) list" where
  "aggregated_rows s pl time_lower_bound =
     (case time_lower_bound of
        None \<Rightarrow> player_join s (discord_id pl)
      | Some d \<Rightarrow> participants_query s (discord_id pl) d)"

text \<open>
  Modelled from the spec: the accumulation step of the missing aggregation methods. The
  specification (4.1 and its design notes) builds an empty mapping from key to a record
  of games and wins, looks the key of each row up or inserts the empty record, and
  increments the fields: games by one, wins by one when the team of the row is the winner
  of its game. A group exists only once a row has reached it.
\<close>

fun add_game ::
  "(game_participant \<Rightarrow> 'k) \<Rightarrow> game \<times> game_participant \<Rightarrow> ('k \<times> role_stats) list \<Rightarrow>
   ('k \<times> role_stats) list" where
  "add_game key (g, p) [] =
     [(key p, \<lparr>rs_games = 1, rs_wins = (if gp_team p = g_winner g then 1 else 0)\<rparr>)]"
| "add_game key (g, p) ((k, st) # rest) =
     (if k = key p
      then (k, st\<lparr>rs_games := rs_games st + 1,
                   rs_wins := rs_wins st + (if gp_team p = g_winner g then 1 else 0)\<rparr>) # rest
      else (k, st) # add_game key (g, p) rest)"

text \<open>Modelled from the spec: the grouped totals of a list of rows under a grouping key,
  the body shared by the two missing aggregation methods.\<close>

definition aggregate ::
  "(game_participant \<Rightarrow> 'k) \<Rightarrow> (game \<times> game_participant) list \<Rightarrow> ('k \<times> role_stats) list" where
  "aggregate key rows = fold (add_game key) rows []"

text \<open>Modelled from the spec: \<open>aggregate_by_role\<close> (4.1), the missing method
  \<open>Player.get_roles_stats\<close> whose result \<open>mmr\<close> shows: the grouping by role.\<close>

definition aggregate_by_role :: "store \<Rightarrow> player \<Rightarrow> datetime option \<Rightarrow> (string \<times> role_stats) list" where
  "aggregate_by_role s pl time_lower_bound = aggregate gp_role (aggregated_rows s pl time_lower_bound)"

text \<open>Modelled from the spec: the games and wins of \<open>aggregate_by_character\<close> (4.1), the
  missing method \<open>Player.get_champions_stats\<close>: the grouping by character. The
  specification does not say which role a group gets; the totals are all that is modelled.\<close>

definition aggregate_by_character :: "store \<Rightarrow> player \<Rightarrow> datetime option \<Rightarrow> (nat \<times> role_stats) list" where
  "aggregate_by_character s pl time_lower_bound =
     aggregate gp_champion_id (aggregated_rows s pl time_lower_bound)"

subsection \<open>Example data\<close>

text \<open>
  Player 7 played three games: support on the winning side at time 100, mid on the losing
  side at time 200, support on the winning side at time 300. A rating row for top exists
  without any game in that role.
\<close>

definition ex_games :: "game list" where
  "ex_games =
     [\<lparr>g_id = 1, g_date = 100, g_winner = ''blue''\<rparr>,
      \<lparr>g_id = 2, g_date = 200, g_winner = ''red''\<rparr>,
      \<lparr>g_id = 3, g_date = 300, g_winner = ''blue''\<rparr>]"

definition ex_participants :: "game_participant list" where
  "ex_participants =
     [\<lparr>gp_game_id = 1, gp_player_id = 7, gp_role = ''support'', gp_champion_id = 12,
       gp_team = ''blue'', gp_mmr = 20\<rparr>,
      \<lparr>gp_game_id = 2, gp_player_id = 7, gp_role = ''mid'', gp_champion_id = 61,
       gp_team = ''blue'', gp_mmr = 25\<rparr>,
      \<lparr>gp_game_id = 3, gp_player_id = 7, gp_role = ''support'', gp_champion_id = 12,
       gp_team = ''blue'', gp_mmr = 22\<rparr>]"

definition ex_store :: store where
  "ex_store = \<lparr>games = ex_games, participants = ex_participants, player_ratings = []\<rparr>"

definition ex_player :: player where
  "ex_player =
     \<lparr>discord_id = 7, name = ''P'',
      ratings =
        [(''support'', \<lparr>pr_player_id = 7, pr_player_name = ''P'', pr_role = ''support'', pr_mmr = 24\<rparr>),
         (''mid'', \<lparr>pr_player_id = 7, pr_player_name = ''P'', pr_role = ''mid'', pr_mmr = 23\<rparr>),
         (''top'', \<lparr>pr_player_id = 7, pr_player_name = ''P'', pr_role = ''top'', pr_mmr = 25\<rparr>)]\<rparr>"

text \<open>A date parser that resolves every text to time 100, and a clock that reads
  \<open>1000 + k\<close> at its \<open>k\<close>-th call.\<close>

definition ex_parse :: dateparser where
  "ex_parse now txt = Some 100"

definition ex_clock :: "nat \<Rightarrow> datetime" where
  "ex_clock k = 1000 + int k"

text \<open>The same command run an hour later.\<close>

definition ex_clock_later :: "nat \<Rightarrow> datetime" where
  "ex_clock_later k = 4600 + int k"

text \<open>The stats mappings of the example player over all three games.\<close>

definition ex_roles_stats :: "(string \<times> role_stats) list" where
  "ex_roles_stats =
     [(''support'', \<lparr>rs_games = 2, rs_wins = 2\<rparr>), (''mid'', \<lparr>rs_games = 1, rs_wins = 0\<rparr>)]"

definition ex_champions_stats :: "(nat \<times> champion_stats) list" where
  "ex_champions_stats =
     [(12, \<lparr>cs_role = ''support'', cs_games = 2, cs_wins = 2\<rparr>),
      (61, \<lparr>cs_role = ''mid'', cs_games = 1, cs_wins = 0\<rparr>)]"

text \<open>Two rank assignments for the example player: single-digit ranks (support 5th, mid
  and top 1st), and ranks on both sides of ten (top 2nd, mid and support 10th).\<close>

definition ex_get_rank_small :: "player_rating \<Rightarrow> nat" where
  "ex_get_rank_small rating = (if pr_role rating = ''support'' then 5 else 1)"

definition ex_get_rank :: "player_rating \<Rightarrow> nat" where
  "ex_get_rank rating = (if pr_role rating = ''top'' then 2 else 10)"

text \<open>
  The rating table of the scenario of the specification: A and B at 1500 and C at 1400 in
  jungle, with B's row scanned before A's; and the same rows with A's row first.
\<close>

definition ex_rating_store :: store where
  "ex_rating_store =
     \<lparr>games = [], participants = [],
      player_ratings =
        [\<lparr>pr_player_id = 2, pr_player_name = ''B'', pr_role = ''jungle'', pr_mmr = 1500\<rparr>,
         \<lparr>pr_player_id = 1, pr_player_name = ''A'', pr_role = ''jungle'', pr_mmr = 1500\<rparr>,
         \<lparr>pr_player_id = 3, pr_player_name = ''C'', pr_role = ''jungle'', pr_mmr = 1400\<rparr>]\<rparr>"

definition ex_rating_store_reordered :: store where
  "ex_rating_store_reordered =
     \<lparr>games = [], participants = [],
      player_ratings =
        [\<lparr>pr_player_id = 1, pr_player_name = ''A'', pr_role = ''jungle'', pr_mmr = 1500\<rparr>,
         \<lparr>pr_player_id = 2, pr_player_name = ''B'', pr_role = ''jungle'', pr_mmr = 1500\<rparr>,
         \<lparr>pr_player_id = 3, pr_player_name = ''C'', pr_role = ''jungle'', pr_mmr = 1400\<rparr>]\<rparr>"

text \<open>A role list, and a matcher that scores an exact role name 100 and finds any other
  text closest to jungle, with score 45.\<close>

definition ex_roles_list :: "string list" where
  "ex_roles_list = [''top'', ''jungle'', ''mid'', ''bot'', ''support'']"

definition ex_extractOne :: "string \<Rightarrow> string list \<Rightarrow> (string \<times> real) option" where
  "ex_extractOne role choices =
     (if choices = [] then None
      else if role \<in> set choices then Some (role, 100)
      else Some (''jungle'', 45))"

section \<open>Properties\<close>

subsection \<open>The participation query\<close>

lemma set_player_join:
  "(g, p) \<in> set (player_join s pid) \<longleftrightarrow>
     g \<in> set (games s) \<and> p \<in> set (participants s) \<and> gp_game_id p = g_id g \<and> gp_player_id p = pid"
  by (auto simp: player_join_def)

text \<open>
  C5. The time filter of the history query admits exactly the joined rows of the player
  whose game date is strictly after the bound: the result is the player's join filtered by
  \<open>bound < date\<close>, a row is in the result if and only if it is a joined row of the player
  with date strictly after the bound, and no row of the result has its date equal to the
  bound.
\<close>

theorem C5_time_filter_strict:
  "participants_query s pid bound = filter (\<lambda>(g, p). bound < g_date g) (player_join s pid)
   \<and> ((g, p) \<in> set (participants_query s pid bound) \<longleftrightarrow>
        g \<in> set (games s) \<and> p \<in> set (participants s) \<and> gp_game_id p = g_id g
        \<and> gp_player_id p = pid \<and> bound < g_date g)
   \<and> \<not> (\<exists>p'. (g\<lparr>g_date := bound\<rparr>, p') \<in> set (participants_query s pid bound))"
  by (auto simp: participants_query_def set_player_join)

text \<open>The example store with bound 100: the game dated 100 is left out, the games dated
  200 and 300 are kept.\<close>

theorem C5_witness:
  "map (\<lambda>(g, p). g_date g) (participants_query ex_store 7 100) = [200, 300]"
proof -
  have "participants_query ex_store 7 100
      = filter (\<lambda>(g, p). 100 < g_date g) (player_join ex_store 7)"
    using C5_time_filter_strict[of ex_store 7 100] by blast
  then show ?thesis
    by (simp add: player_join_def ex_store_def ex_games_def ex_participants_def)
qed

subsection \<open>Grouping by role and the final point\<close>

lemma map_of_add_point:
  "map_of (add_point r d m acc) k =
     (if k = r
      then Some \<lparr>h_dates = (case map_of acc r of None \<Rightarrow> [] | Some e \<Rightarrow> h_dates e) @ [d],
                 h_mmr = (case map_of acc r of None \<Rightarrow> [] | Some e \<Rightarrow> h_mmr e) @ [m]\<rparr>
      else map_of acc k)"
  by (induction acc) auto

lemma keys_add_point:
  "map fst (add_point r d m acc) =
     (case map_of acc r of None \<Rightarrow> map fst acc @ [r] | Some e \<Rightarrow> map fst acc)"
  by (induction acc) (auto split: option.splits)

lemma set_keys_add_point: "fst ` set (add_point r d m acc) = insert r (fst ` set acc)"
proof -
  have "set (map fst (add_point r d m acc)) = insert r (set (map fst acc))"
  proof (cases "map_of acc r")
    case None
    then show ?thesis by (simp add: keys_add_point)
  next
    case (Some e)
    then have "r \<in> fst ` set acc" by (metis map_of_eq_None_iff option.distinct(1))
    then show ?thesis using Some by (auto simp: keys_add_point)
  qed
  then show ?thesis by simp
qed

lemma distinct_add_point:
  "distinct (map fst acc) \<Longrightarrow> distinct (map fst (add_point r d m acc))"
  by (auto simp: keys_add_point map_of_eq_None_iff split: option.splits)

lemma games_add_point:
  "(\<Sum>(k, e)\<leftarrow>add_point r d m acc. length (h_dates e)) = Suc (\<Sum>(k, e)\<leftarrow>acc. length (h_dates e))"
  by (induction acc) auto

lemma fold_add_point_distinct:
  "distinct (map fst acc) \<Longrightarrow>
   distinct (map fst (fold (\<lambda>(g, p). add_point (gp_role p) (g_date g) (gp_mmr p)) ps acc))"
  by (induction ps arbitrary: acc) (auto simp: distinct_add_point)

lemma fold_add_point_keys:
  "fst ` set (fold (\<lambda>(g, p). add_point (gp_role p) (g_date g) (gp_mmr p)) ps acc)
     = fst ` set acc \<union> (\<lambda>(g, p). gp_role p) ` set ps"
proof (induction ps arbitrary: acc)
  case Nil
  then show ?case by simp
next
  case (Cons x ps)
  obtain g p where x: "x = (g, p)" by (cases x)
  have "fst ` set (fold (\<lambda>(g, p). add_point (gp_role p) (g_date g) (gp_mmr p)) (x # ps) acc)
          = fst ` set (add_point (gp_role p) (g_date g) (gp_mmr p) acc) \<union> (\<lambda>(g, p). gp_role p) ` set ps"
    by (simp add: x Cons.IH)
  also have "\<dots> = insert (gp_role p) (fst ` set acc) \<union> (\<lambda>(g, p). gp_role p) ` set ps"
    by (simp only: set_keys_add_point)
  finally show ?case by (simp add: x)
qed

lemma fold_add_point_games:
  "(\<Sum>(k, e)\<leftarrow>fold (\<lambda>(g, p). add_point (gp_role p) (g_date g) (gp_mmr p)) ps acc. length (h_dates e))
     = (\<Sum>(k, e)\<leftarrow>acc. length (h_dates e)) + length ps"
  by (induction ps arbitrary: acc) (auto simp: games_add_point)

lemma fold_add_point_map_of:
  "map_of (fold (\<lambda>(g, p). add_point (gp_role p) (g_date g) (gp_mmr p)) ps acc) k =
     (if filter (\<lambda>(g, p). gp_role p = k) ps = [] then map_of acc k
      else Some \<lparr>h_dates = (case map_of acc k of None \<Rightarrow> [] | Some e \<Rightarrow> h_dates e)
                    @ map (\<lambda>(g, p). g_date g) (filter (\<lambda>(g, p). gp_role p = k) ps),
                 h_mmr = (case map_of acc k of None \<Rightarrow> [] | Some e \<Rightarrow> h_mmr e)
                    @ map (\<lambda>(g, p). gp_mmr p) (filter (\<lambda>(g, p). gp_role p = k) ps)\<rparr>)"
proof (induction ps arbitrary: acc)
  case Nil
  then show ?case by simp
next
  case (Cons x ps)
  obtain g p where x: "x = (g, p)" by (cases x)
  show ?case
    unfolding x by (simp add: Cons.IH map_of_add_point split: option.splits)
qed

lemma group_history_distinct: "distinct (map fst (group_history ps))"
  by (simp add: group_history_def fold_add_point_distinct)

lemma group_history_keys: "fst ` set (group_history ps) = (\<lambda>(g, p). gp_role p) ` set ps"
  by (simp add: group_history_def fold_add_point_keys)

lemma group_history_games: "(\<Sum>(k, e)\<leftarrow>group_history ps. length (h_dates e)) = length ps"
  by (simp add: group_history_def fold_add_point_games)

lemma group_history_entry:
  assumes "(k, e) \<in> set (group_history ps)"
  shows "e = \<lparr>h_dates = map (\<lambda>(g, p). g_date g) (filter (\<lambda>(g, p). gp_role p = k) ps),
              h_mmr = map (\<lambda>(g, p). gp_mmr p) (filter (\<lambda>(g, p). gp_role p = k) ps)\<rparr>
         \<and> filter (\<lambda>(g, p). gp_role p = k) ps \<noteq> []"
proof -
  have "map_of (group_history ps) k = Some e"
    using assms group_history_distinct by simp
  then show ?thesis
    by (simp add: group_history_def fold_add_point_map_of split: if_splits)
qed

lemma append_current_length:
  "append_current clock rts k acc = Inr out \<Longrightarrow> length out = length acc"
  by (induction acc arbitrary: k out) (auto split: option.splits sum.splits)

lemma append_current_nth:
  "append_current clock rts k acc = Inr out \<Longrightarrow> i < length acc \<Longrightarrow>
   \<exists>rating. map_of rts (fst (acc ! i)) = Some rating \<and>
     out ! i = (fst (acc ! i),
                \<lparr>h_dates = h_dates (snd (acc ! i)) @ [clock (k + i)],
                 h_mmr = h_mmr (snd (acc ! i)) @ [pr_mmr rating]\<rparr>)"
proof (induction acc arbitrary: k out i)
  case Nil
  then show ?case by simp
next
  case (Cons a acc)
  obtain r e where a: "a = (r, e)" by (cases a)
  from Cons.prems(1) obtain rating rest' where
    rt: "map_of rts r = Some rating" and
    rest: "append_current clock rts (Suc k) acc = Inr rest'" and
    out: "out = (r, e\<lparr>h_dates := h_dates e @ [clock k], h_mmr := h_mmr e @ [pr_mmr rating]\<rparr>) # rest'"
    unfolding a by (auto split: option.splits sum.splits)
  show ?case
  proof (cases i)
    case 0
    then show ?thesis using rt out a by simp
  next
    case (Suc j)
    with Cons.prems(2) have "j < length acc" by simp
    from Cons.IH[OF rest this] show ?thesis using Suc out by simp
  qed
qed

lemma append_current_rated:
  "append_current clock rts k acc = Inr out \<Longrightarrow> r \<in> fst ` set acc \<Longrightarrow> map_of rts r \<noteq> None"
  by (induction acc arbitrary: k out) (force split: option.splits sum.splits)+

lemma append_current_returns:
  "\<forall>r \<in> fst ` set acc. map_of rts r \<noteq> None \<Longrightarrow>
   \<exists>out. append_current clock rts k acc = Inr out"
proof (induction acc arbitrary: k)
  case Nil
  then show ?case by simp
next
  case (Cons a acc)
  obtain r e where a: "a = (r, e)" by (cases a)
  from Cons.prems obtain rating where rt: "map_of rts r = Some rating"
    by (auto simp: a)
  have "\<exists>out. append_current clock rts (Suc k) acc = Inr out"
    by (rule Cons.IH) (use Cons.prems in auto)
  then obtain rest' where "append_current clock rts (Suc k) acc = Inr rest'" ..
  then show ?case by (simp add: a rt)
qed

lemma append_current_Inl:
  "append_current clock rts k acc = Inl err \<Longrightarrow> err = KeyError"
  by (induction acc arbitrary: k) (auto split: option.splits sum.splits)

lemma append_current_games:
  "append_current clock rts k acc = Inr out \<Longrightarrow>
   (\<Sum>(r, e)\<leftarrow>out. length (h_dates e) - 1) = (\<Sum>(r, e)\<leftarrow>acc. length (h_dates e))"
  by (induction acc arbitrary: k out) (auto split: option.splits sum.splits)

lemma append_current_keys:
  "append_current clock rts k acc = Inr out \<Longrightarrow> map fst out = map fst acc"
  by (induction acc arbitrary: k out) (auto split: option.splits sum.splits)

lemma append_current_clock_free:
  "map_sum id (map (\<lambda>(r, e). (r, butlast (h_dates e), h_mmr e))) (append_current c1 rts k1 acc)
   = map_sum id (map (\<lambda>(r, e). (r, butlast (h_dates e), h_mmr e))) (append_current c2 rts k2 acc)"
proof (induction acc arbitrary: k1 k2)
  case Nil
  then show ?case by simp
next
  case (Cons a acc)
  obtain r e where a: "a = (r, e)" by (cases a)
  from Cons.IH[of "Suc k1" "Suc k2"] show ?case
    by (cases "append_current c1 rts (Suc k1) acc"; cases "append_current c2 rts (Suc k2) acc")
       (auto simp: a split: option.splits)
qed

lemma plot_calls_series:
  "append_current clock rts k acc = Inr series \<Longrightarrow>
   plot_calls clock rts k acc = map (\<lambda>(r, e). Plot (h_dates e) (h_mmr e)) series"
  by (induction acc arbitrary: k series) (auto split: option.splits sum.splits)

lemma append_current_unrated:
  assumes "r \<in> fst ` set acc" and "map_of rts r = None"
  shows "append_current clock rts k acc = Inl KeyError"
proof (cases "append_current clock rts k acc")
  case (Inl err)
  then show ?thesis using append_current_Inl by metis
next
  case (Inr out)
  from append_current_rated[OF Inr assms(1)] assms(2) show ?thesis by simp
qed

subsection \<open>The rating history and its lower bound\<close>

lemma mmr_history_unparsed:
  "resolve_date_start parse (clock 0) ds = None \<Longrightarrow> mmr_history parse clock s pl ds = Inl ArgumentError"
  by (simp add: mmr_history_def history_participants_def)

lemma mmr_history_bound:
  "resolve_date_start parse (clock 0) ds = Some d \<Longrightarrow>
   mmr_history parse clock s pl ds
     = append_current clock (ratings pl) 1 (group_history (participants_query s (discord_id pl) d))"
  by (simp add: mmr_history_def history_participants_def)

lemma mmr_history_Inr_bound:
  "mmr_history parse clock s pl ds = Inr out \<Longrightarrow>
   \<exists>d. resolve_date_start parse (clock 0) ds = Some d
       \<and> history_participants parse clock s pl ds = Inr (participants_query s (discord_id pl) d)
       \<and> append_current clock (ratings pl) 1 (group_history (participants_query s (discord_id pl) d)) = Inr out"
  by (cases "resolve_date_start parse (clock 0) ds")
     (auto simp: mmr_history_def history_participants_def)

lemma series_of_rows:
  assumes "append_current clock rts 1 (group_history q) = Inr out"
  shows "(\<forall>r. r \<in> fst ` set out \<longleftrightarrow> (\<exists>(g, p) \<in> set q. gp_role p = r))
       \<and> (\<forall>(r, e) \<in> set out. 2 \<le> length (h_dates e) \<and> length (h_mmr e) = length (h_dates e))"
proof -
  note ac = assms
  have keys: "fst ` set out = (\<lambda>(g, p). gp_role p) ` set q"
  proof -
    have "set (map fst out) = set (map fst (group_history q))"
      using append_current_keys[OF ac] by simp
    then show ?thesis using group_history_keys[of q] by simp
  qed
  have roles: "\<forall>r. r \<in> fst ` set out \<longleftrightarrow> (\<exists>(g, p) \<in> set q. gp_role p = r)"
    unfolding keys by auto
  have len: "\<forall>(r, e) \<in> set out. 2 \<le> length (h_dates e) \<and> length (h_mmr e) = length (h_dates e)"
  proof (clarify)
    fix r e assume "(r, e) \<in> set out"
    then obtain i where i: "i < length out" "out ! i = (r, e)" by (auto simp: in_set_conv_nth)
    have il: "i < length (group_history q)" using i append_current_length[OF ac] by simp
    from append_current_nth[OF ac il] obtain rating :: player_rating where
      o: "out ! i = (fst (group_history q ! i),
              \<lparr>h_dates = h_dates (snd (group_history q ! i)) @ [clock (1 + i)],
               h_mmr = h_mmr (snd (group_history q ! i)) @ [pr_mmr rating]\<rparr>)" by auto
    obtain k e0 where ke: "group_history q ! i = (k, e0)" by (cases "group_history q ! i")
    then have "(k, e0) \<in> set (group_history q)" using il by (metis nth_mem)
    from group_history_entry[OF this] have "h_dates e0 \<noteq> []" "length (h_mmr e0) = length (h_dates e0)"
      by auto
    then show "2 \<le> length (h_dates e) \<and> length (h_mmr e) = length (h_dates e)"
      using o i ke by (cases "h_dates e0") auto
  qed
  show ?thesis using roles len by blast
qed

subsection \<open>Which roles the rating history shows\<close>

text \<open>
  C3 (as the code has it). When the date text cannot be parsed the rating history raises
  \<open>ArgumentError\<close>. Otherwise, with the lower bound it resolved: if some participant row of
  the player with game date strictly after the bound has a role without a rating row, it
  raises \<open>KeyError\<close>; if not, it returns a mapping in which a role is present if and only if
  the player has at least one participant row in that role whose game date is strictly
  after the bound. A rating row alone does not bring a role into the output. Every series
  present has at least two points, the last one being the synthetic one, and as many
  ratings as dates.
\<close>

theorem C3_history_roles_are_played_roles:
  "(resolve_date_start parse (clock 0) ds = None \<longrightarrow>
      mmr_history parse clock s pl ds = Inl ArgumentError)
   \<and> (\<forall>d. resolve_date_start parse (clock 0) ds = Some d \<longrightarrow>
        (if \<exists>(g, p) \<in> set (participants_query s (discord_id pl) d).
              map_of (ratings pl) (gp_role p) = None
         then mmr_history parse clock s pl ds = Inl KeyError
         else \<exists>out. mmr_history parse clock s pl ds = Inr out
                \<and> (\<forall>r. r \<in> fst ` set out \<longleftrightarrow>
                      (\<exists>(g, p) \<in> set (participants_query s (discord_id pl) d). gp_role p = r))
                \<and> (\<forall>(r, e) \<in> set out.
                      2 \<le> length (h_dates e) \<and> length (h_mmr e) = length (h_dates e))))"
proof (intro conjI allI impI)
  assume "resolve_date_start parse (clock 0) ds = None"
  then show "mmr_history parse clock s pl ds = Inl ArgumentError"
    by (rule mmr_history_unparsed)
next
  fix d
  assume d: "resolve_date_start parse (clock 0) ds = Some d"
  define q where "q = participants_query s (discord_id pl) d"
  have mh: "mmr_history parse clock s pl ds = append_current clock (ratings pl) 1 (group_history q)"
    unfolding q_def using d by (rule mmr_history_bound)
  show "if \<exists>(g, p) \<in> set (participants_query s (discord_id pl) d).
              map_of (ratings pl) (gp_role p) = None
         then mmr_history parse clock s pl ds = Inl KeyError
         else \<exists>out. mmr_history parse clock s pl ds = Inr out
                \<and> (\<forall>r. r \<in> fst ` set out \<longleftrightarrow>
                      (\<exists>(g, p) \<in> set (participants_query s (discord_id pl) d). gp_role p = r))
                \<and> (\<forall>(r, e) \<in> set out.
                      2 \<le> length (h_dates e) \<and> length (h_mmr e) = length (h_dates e))"
  proof (cases "\<exists>(g, p) \<in> set q. map_of (ratings pl) (gp_role p) = None")
    case True
    then obtain g p where "(g, p) \<in> set q" and none: "map_of (ratings pl) (gp_role p) = None"
      by auto
    then have "gp_role p \<in> fst ` set (group_history q)"
      unfolding group_history_keys by force
    from append_current_unrated[OF this none] have "mmr_history parse clock s pl ds = Inl KeyError"
      using mh by simp
    then show ?thesis using True unfolding q_def by simp
  next
    case False
    then have "\<forall>r \<in> fst ` set (group_history q). map_of (ratings pl) r \<noteq> None"
      unfolding group_history_keys by auto
    from append_current_returns[OF this, of clock 1] obtain out where
      out: "append_current clock (ratings pl) 1 (group_history q) = Inr out" by auto
    from series_of_rows[OF out] out mh False show ?thesis unfolding q_def by auto
  qed
qed

text \<open>The example run, evaluated.\<close>

lemma ex_bound: "resolve_date_start ex_parse (ex_clock 0) None = Some 100"
  by (simp add: resolve_date_start_def ex_parse_def)

lemma ex_rows:
  "participants_query ex_store (discord_id ex_player) 100
     = [(ex_games ! 1, ex_participants ! 1), (ex_games ! 2, ex_participants ! 2)]"
  by (simp add: participants_query_def player_join_def ex_store_def ex_games_def
      ex_participants_def ex_player_def)

lemma ex_history:
  "mmr_history ex_parse ex_clock ex_store ex_player None =
       Inr [(''mid'', \<lparr>h_dates = [200, 1001], h_mmr = [25, 23]\<rparr>),
            (''support'', \<lparr>h_dates = [300, 1002], h_mmr = [22, 24]\<rparr>)]"
  by (simp add: mmr_history_def history_participants_def resolve_date_start_def ex_parse_def
      ex_clock_def ex_player_def participants_query_def player_join_def ex_store_def ex_games_def
      ex_participants_def group_history_def)

text \<open>The example player: support is shown, top (rated, never played) is not.\<close>

theorem C3_witness:
  "\<exists>out. mmr_history ex_parse ex_clock ex_store ex_player None = Inr out
     \<and> ''support'' \<in> fst ` set out \<and> ''top'' \<notin> fst ` set out"
proof -
  have rated: "\<not> (\<exists>(g, p) \<in> set (participants_query ex_store (discord_id ex_player) 100).
            map_of (ratings ex_player) (gp_role p) = None)"
    unfolding ex_rows by (simp add: ex_games_def ex_participants_def ex_player_def)
  from C3_history_roles_are_played_roles[of ex_parse ex_clock None ex_store ex_player] ex_bound rated
  obtain out where out: "mmr_history ex_parse ex_clock ex_store ex_player None = Inr out"
    and roles: "\<forall>r. r \<in> fst ` set out \<longleftrightarrow>
              (\<exists>(g, p) \<in> set (participants_query ex_store (discord_id ex_player) 100). gp_role p = r)"
    by (auto split: if_splits)
  have "''support'' \<in> fst ` set out"
    using roles unfolding ex_rows by (simp add: ex_games_def ex_participants_def)
  moreover have "''top'' \<notin> fst ` set out"
    using roles unfolding ex_rows by (simp add: ex_games_def ex_participants_def)
  ultimately show ?thesis using out by blast
qed

text \<open>
  The claim as written fails: the example player has a rating row for top and no game in
  that role, and the output holds mid and support only.
\<close>

theorem C3_counterexample:
  "map_of (ratings ex_player) ''top'' \<noteq> None
   \<and> mmr_history ex_parse ex_clock ex_store ex_player None =
       Inr [(''mid'', \<lparr>h_dates = [200, 1001], h_mmr = [25, 23]\<rparr>),
            (''support'', \<lparr>h_dates = [300, 1002], h_mmr = [22, 24]\<rparr>)]"
  by (simp add: mmr_history_def history_participants_def resolve_date_start_def ex_parse_def
      ex_clock_def ex_player_def participants_query_def player_join_def ex_store_def ex_games_def
      ex_participants_def group_history_def)

subsection \<open>The final point of a series\<close>

lemma mmr_history_nth:
  assumes "mmr_history parse clock s pl ds = Inr out" and "i < length out" and "out ! i = (r, e)"
  shows "\<exists>rating d. map_of (ratings pl) r = Some rating
     \<and> resolve_date_start parse (clock 0) ds = Some d
     \<and> h_dates e = map (\<lambda>(g, p). g_date g)
           (filter (\<lambda>(g, p). gp_role p = r) (participants_query s (discord_id pl) d)) @ [clock (Suc i)]
     \<and> h_mmr e = map (\<lambda>(g, p). gp_mmr p)
           (filter (\<lambda>(g, p). gp_role p = r) (participants_query s (discord_id pl) d)) @ [pr_mmr rating]"
proof -
  from mmr_history_Inr_bound[OF assms(1)] obtain d where
    d: "resolve_date_start parse (clock 0) ds = Some d" and
    ac: "append_current clock (ratings pl) 1 (group_history (participants_query s (discord_id pl) d)) = Inr out"
    by auto
  define q where "q = participants_query s (discord_id pl) d"
  note ac = ac[folded q_def]
  have il: "i < length (group_history q)"
    using assms(2) append_current_length[OF ac] by simp
  from append_current_nth[OF ac il] obtain rating :: player_rating where
    rt: "map_of (ratings pl) (fst (group_history q ! i)) = Some rating" and
    o: "out ! i = (fst (group_history q ! i),
            \<lparr>h_dates = h_dates (snd (group_history q ! i)) @ [clock (1 + i)],
             h_mmr = h_mmr (snd (group_history q ! i)) @ [pr_mmr rating]\<rparr>)"
    by auto
  obtain k e0 where ke: "group_history q ! i = (k, e0)" by (cases "group_history q ! i")
  then have "(k, e0) \<in> set (group_history q)" using il by (metis nth_mem)
  from group_history_entry[OF this] have
    e0: "e0 = \<lparr>h_dates = map (\<lambda>(g, p). g_date g) (filter (\<lambda>(g, p). gp_role p = k) q),
              h_mmr = map (\<lambda>(g, p). gp_mmr p) (filter (\<lambda>(g, p). gp_role p = k) q)\<rparr>"
    by simp
  have kr: "k = r" using o assms(3) ke by simp
  have "map_of (ratings pl) r = Some rating" using rt ke kr by simp
  moreover have "h_dates e = map (\<lambda>(g, p). g_date g) (filter (\<lambda>(g, p). gp_role p = r) q) @ [clock (Suc i)]"
    using o assms(3) ke kr e0 by simp
  moreover have "h_mmr e = map (\<lambda>(g, p). gp_mmr p) (filter (\<lambda>(g, p). gp_role p = r) q) @ [pr_mmr rating]"
    using o assms(3) ke kr e0 by simp
  ultimately show ?thesis using d unfolding q_def by blast
qed

lemma sorted_role_dates:
  assumes "sorted (map (\<lambda>(g, p). g_date g) (player_join s pid))"
  shows "sorted (map (\<lambda>(g, p). g_date g) (filter (\<lambda>(g, p). gp_role p = r) (participants_query s pid d)))"
  unfolding participants_query_def by (intro sorted_filter assms)

text \<open>
  C4. For the \<open>i\<close>-th role of the rating history output, the dates of the series are the
  game dates of the player's qualifying rows in that role, in the order of the participant
  table, followed by exactly one more point: the clock reading taken for that role. The
  ratings are the snapshots of these rows followed by the current rating of the role. So
  the series ends with exactly one synthetic point, the current rating at the current
  time. On a store as the specification describes it, where the participant rows of the
  player are in chronological order of their games (insertion order is chronological
  order) and every game of the player was completed by the time the clock is read, the
  timestamps of the whole series are non-decreasing.
\<close>

theorem C4_history_final_point:
  assumes "mmr_history parse clock s pl ds = Inr out" and "i < length out" and "out ! i = (r, e)"
  shows "\<exists>rating d. map_of (ratings pl) r = Some rating
     \<and> resolve_date_start parse (clock 0) ds = Some d
     \<and> h_dates e = map (\<lambda>(g, p). g_date g)
           (filter (\<lambda>(g, p). gp_role p = r) (participants_query s (discord_id pl) d)) @ [clock (Suc i)]
     \<and> h_mmr e = map (\<lambda>(g, p). gp_mmr p)
           (filter (\<lambda>(g, p). gp_role p = r) (participants_query s (discord_id pl) d)) @ [pr_mmr rating]
     \<and> last (h_dates e) = clock (Suc i) \<and> last (h_mmr e) = pr_mmr rating
     \<and> (sorted (map (\<lambda>(g, p). g_date g) (player_join s (discord_id pl)))
          \<and> (\<forall>(g, p) \<in> set (player_join s (discord_id pl)). g_date g \<le> clock (Suc i))
          \<longrightarrow> sorted (h_dates e))"
proof -
  from mmr_history_nth[OF assms] obtain rating :: player_rating and d where
    rt: "map_of (ratings pl) r = Some rating" and
    b: "resolve_date_start parse (clock 0) ds = Some d" and
    d: "h_dates e = map (\<lambda>(g, p). g_date g)
           (filter (\<lambda>(g, p). gp_role p = r) (participants_query s (discord_id pl) d)) @ [clock (Suc i)]" and
    m: "h_mmr e = map (\<lambda>(g, p). gp_mmr p)
           (filter (\<lambda>(g, p). gp_role p = r) (participants_query s (discord_id pl) d)) @ [pr_mmr rating]"
    by auto
  have l1: "last (h_dates e) = clock (Suc i)" by (simp add: d)
  have l2: "last (h_mmr e) = pr_mmr rating" by (simp add: m)
  have so: "sorted (map (\<lambda>(g, p). g_date g) (player_join s (discord_id pl)))
          \<and> (\<forall>(g, p) \<in> set (player_join s (discord_id pl)). g_date g \<le> clock (Suc i))
          \<longrightarrow> sorted (h_dates e)"
  proof
    assume a: "sorted (map (\<lambda>(g, p). g_date g) (player_join s (discord_id pl)))
          \<and> (\<forall>(g, p) \<in> set (player_join s (discord_id pl)). g_date g \<le> clock (Suc i))"
    then have "sorted (map (\<lambda>(g, p). g_date g)
           (filter (\<lambda>(g, p). gp_role p = r) (participants_query s (discord_id pl) d)))"
      using sorted_role_dates by blast
    moreover have "\<forall>(g, p) \<in> set (participants_query s (discord_id pl) d). g_date g \<le> clock (Suc i)"
      using a by (auto simp: participants_query_def)
    ultimately show "sorted (h_dates e)"
      unfolding d by (auto simp: sorted_append)
  qed
  show ?thesis using rt b d m l1 l2 so by blast
qed

text \<open>The support series of the example run: the store is in chronological order, its
  games are completed before the clock is read, and the series is dated 300, 1002 with the
  current rating 24 at its end.\<close>

theorem C4_witness:
  "sorted [300, 1002 :: datetime] \<and> last [22, 24 :: real] = 24
   \<and> (\<exists>rating. map_of (ratings ex_player) ''support'' = Some rating \<and> pr_mmr rating = 24)"
proof -
  have len: "1 < length [(''mid'', \<lparr>h_dates = [200, 1001], h_mmr = [25, 23]\<rparr>),
            (''support'', \<lparr>h_dates = [300, 1002::int], h_mmr = [22, 24::real]\<rparr>)]" by simp
  have nth: "[(''mid'', \<lparr>h_dates = [200, 1001], h_mmr = [25, 23]\<rparr>),
            (''support'', \<lparr>h_dates = [300, 1002::int], h_mmr = [22, 24::real]\<rparr>)] ! 1
          = (''support'', \<lparr>h_dates = [300, 1002], h_mmr = [22, 24]\<rparr>)" by simp
  have chrono: "sorted (map (\<lambda>(g, p). g_date g) (player_join ex_store (discord_id ex_player)))"
    by (simp add: player_join_def ex_store_def ex_games_def ex_participants_def ex_player_def)
  have past: "\<forall>(g, p) \<in> set (player_join ex_store (discord_id ex_player)). g_date g \<le> ex_clock (Suc 1)"
    by (simp add: player_join_def ex_store_def ex_games_def ex_participants_def ex_player_def
        ex_clock_def)
  from C4_history_final_point[OF ex_history len nth] chrono past
  obtain rating :: player_rating where
    "map_of (ratings ex_player) ''support'' = Some rating"
    "last (h_mmr \<lparr>h_dates = [300, 1002], h_mmr = [22, 24]\<rparr>) = pr_mmr rating"
    "sorted (h_dates \<lparr>h_dates = [300, 1002], h_mmr = [22, 24::real]\<rparr>)"
    by blast
  then show ?thesis by auto
qed

subsection \<open>Every qualifying row is counted once\<close>

text \<open>
  C6. In the role grouping of the rating history every qualifying participant row
  contributes to exactly one role group. The group of a role holds exactly the qualifying
  rows of that role, in order; the roles of the groups are distinct; the role of every
  qualifying row has a group; and the per-role counts of games add up to the number of
  qualifying rows. In the output of the command each series has one point more than its
  count of games, and these counts add up to the number of qualifying rows of the player.
\<close>

theorem C6_each_row_in_one_role_group:
  "(\<Sum>(r, e)\<leftarrow>group_history (participants_query s pid bound). length (h_dates e))
      = length (participants_query s pid bound)
   \<and> distinct (map fst (group_history (participants_query s pid bound)))
   \<and> (\<forall>(r, e) \<in> set (group_history (participants_query s pid bound)).
         h_dates e = map (\<lambda>(g, p). g_date g)
                       (filter (\<lambda>(g, p). gp_role p = r) (participants_query s pid bound))
         \<and> h_mmr e = map (\<lambda>(g, p). gp_mmr p)
                       (filter (\<lambda>(g, p). gp_role p = r) (participants_query s pid bound)))
   \<and> (\<forall>(g, p) \<in> set (participants_query s pid bound).
         gp_role p \<in> fst ` set (group_history (participants_query s pid bound)))
   \<and> (\<forall>out. mmr_history parse clock s pl ds = Inr out \<longrightarrow>
         (\<exists>rows. history_participants parse clock s pl ds = Inr rows
            \<and> (\<Sum>(r, e)\<leftarrow>out. length (h_dates e) - 1) = length rows))"
proof -
  have a: "(\<Sum>(r, e)\<leftarrow>group_history (participants_query s pid bound). length (h_dates e))
      = length (participants_query s pid bound)"
    by (rule group_history_games)
  have b: "distinct (map fst (group_history (participants_query s pid bound)))"
    by (rule group_history_distinct)
  have c: "\<forall>(r, e) \<in> set (group_history (participants_query s pid bound)).
         h_dates e = map (\<lambda>(g, p). g_date g)
                       (filter (\<lambda>(g, p). gp_role p = r) (participants_query s pid bound))
         \<and> h_mmr e = map (\<lambda>(g, p). gp_mmr p)
                       (filter (\<lambda>(g, p). gp_role p = r) (participants_query s pid bound))"
    using group_history_entry by fastforce
  have d: "\<forall>(g, p) \<in> set (participants_query s pid bound).
         gp_role p \<in> fst ` set (group_history (participants_query s pid bound))"
    unfolding group_history_keys by auto
  have e: "\<forall>out. mmr_history parse clock s pl ds = Inr out \<longrightarrow>
         (\<exists>rows. history_participants parse clock s pl ds = Inr rows
            \<and> (\<Sum>(r, e)\<leftarrow>out. length (h_dates e) - 1) = length rows)"
  proof (intro allI impI)
    fix out assume "mmr_history parse clock s pl ds = Inr out"
    from mmr_history_Inr_bound[OF this] obtain d where
      hp: "history_participants parse clock s pl ds = Inr (participants_query s (discord_id pl) d)" and
      ac: "append_current clock (ratings pl) 1 (group_history (participants_query s (discord_id pl) d)) = Inr out"
      by auto
    from append_current_games[OF ac]
    have "(\<Sum>(r, e)\<leftarrow>out. length (h_dates e) - 1) = length (participants_query s (discord_id pl) d)"
      by (simp add: group_history_games)
    then show "\<exists>rows. history_participants parse clock s pl ds = Inr rows
            \<and> (\<Sum>(r, e)\<leftarrow>out. length (h_dates e) - 1) = length rows"
      using hp by blast
  qed
  show ?thesis using a b c d e by blast
qed

text \<open>The example run: two series with one game each, two qualifying rows.\<close>

theorem C6_witness:
  "\<exists>rows. history_participants ex_parse ex_clock ex_store ex_player None = Inr rows
     \<and> (\<Sum>(r, e)\<leftarrow>[(''mid'', \<lparr>h_dates = [200, 1001], h_mmr = [25, 23]\<rparr>),
               (''support'', \<lparr>h_dates = [300, 1002], h_mmr = [22, 24]\<rparr>)]. length (h_dates e) - 1)
         = length rows
     \<and> length rows = 2"
proof -
  from C6_each_row_in_one_role_group[of ex_store 7 100 ex_parse ex_clock ex_player None] ex_history
  obtain rows where rows: "history_participants ex_parse ex_clock ex_store ex_player None = Inr rows"
    and sum: "(\<Sum>(r, e)\<leftarrow>[(''mid'', \<lparr>h_dates = [200, 1001], h_mmr = [25, 23]\<rparr>),
               (''support'', \<lparr>h_dates = [300, 1002], h_mmr = [22, 24]\<rparr>)]. length (h_dates e) - 1)
         = length rows"
    by blast
  from sum have "length rows = 2" by simp
  then show ?thesis using rows sum by blast
qed

subsection \<open>What the rating history depends on\<close>

lemma mmr_history_command_sent:
  assumes "mmr_history parse clock s pl ds = Inr series"
  shows "mmr_history_command parse clock temp_name fig s pl ds =
     (Inr \<lparr>pf_filename = temp_name,
           pf_image = fig @ map (\<lambda>(r, e). Plot (h_dates e) (h_mmr e)) series
                        @ [Legend (map fst series),
                           Title (''MMR variation in the last month for '' @ name pl),
                           Glow_effects]\<rparr>,
      fig @ map (\<lambda>(r, e). Plot (h_dates e) (h_mmr e)) series
          @ [Legend (map fst series),
             Title (''MMR variation in the last month for '' @ name pl),
             Glow_effects])"
proof -
  from mmr_history_Inr_bound[OF assms] obtain d where
    hp: "history_participants parse clock s pl ds = Inr (participants_query s (discord_id pl) d)" and
    ac: "append_current clock (ratings pl) 1 (group_history (participants_query s (discord_id pl) d)) = Inr series"
    by auto
  show ?thesis
    using ac plot_calls_series[OF ac] by (simp add: mmr_history_command_def hp Let_def)
qed

lemma mmr_history_command_raised:
  assumes "mmr_history parse clock s pl ds = Inl err"
  shows "fst (mmr_history_command parse clock temp_name fig s pl ds) = Inl err
       \<and> (\<exists>plotted. snd (mmr_history_command parse clock temp_name fig s pl ds) = fig @ plotted)"
proof (cases "history_participants parse clock s pl ds")
  case (Inl e)
  then show ?thesis using assms by (simp add: mmr_history_command_def mmr_history_def)
next
  case (Inr rows)
  then have "append_current clock (ratings pl) 1 (group_history rows) = Inl err"
    using assms by (simp add: mmr_history_def)
  then show ?thesis using Inr by (simp add: mmr_history_command_def Let_def)
qed

text \<open>
  C9 (as the code has it). Running the rating history again on the same store with the
  same argument does not give the same result. When the run raises no error, the file it
  sends carries the name of the temporary file and shows the process-wide figure: every
  call that earlier runs left on it, followed by the calls of this run, which are one plot
  per role with the series of that role, the legend of the roles, the title and the glow
  effect; the figure is left in that state for the next run. When the run raises, the
  calls of earlier runs stay on the figure. The last date of each series is the clock
  reading taken for its role. Two runs on the same store with the same
  argument whose lower bound resolves to the same instant either raise the same error or
  plot the same roles in the same order with the same ratings and the same dates except
  the last date of each series.
\<close>

theorem C9_what_the_rating_history_depends_on:
  "(resolve_date_start parse (c1 0) ds = resolve_date_start parse (c2 0) ds \<longrightarrow>
      map_sum id (map (\<lambda>(r, e). (r, butlast (h_dates e), h_mmr e))) (mmr_history parse c1 s pl ds)
    = map_sum id (map (\<lambda>(r, e). (r, butlast (h_dates e), h_mmr e))) (mmr_history parse c2 s pl ds))
   \<and> (\<forall>series. mmr_history parse clock s pl ds = Inr series \<longrightarrow>
        mmr_history_command parse clock temp_name fig s pl ds =
          (Inr \<lparr>pf_filename = temp_name,
                pf_image = fig @ map (\<lambda>(r, e). Plot (h_dates e) (h_mmr e)) series
                             @ [Legend (map fst series),
                                Title (''MMR variation in the last month for '' @ name pl),
                                Glow_effects]\<rparr>,
           fig @ map (\<lambda>(r, e). Plot (h_dates e) (h_mmr e)) series
               @ [Legend (map fst series),
                  Title (''MMR variation in the last month for '' @ name pl),
                  Glow_effects]))
   \<and> (\<forall>err. mmr_history parse clock s pl ds = Inl err \<longrightarrow>
        fst (mmr_history_command parse clock temp_name fig s pl ds) = Inl err
        \<and> (\<exists>plotted. snd (mmr_history_command parse clock temp_name fig s pl ds) = fig @ plotted))
   \<and> (\<forall>series i. mmr_history parse clock s pl ds = Inr series \<and> i < length series \<longrightarrow>
        last (h_dates (snd (series ! i))) = clock (Suc i))"
proof (intro conjI allI impI)
  assume same: "resolve_date_start parse (c1 0) ds = resolve_date_start parse (c2 0) ds"
  show "map_sum id (map (\<lambda>(r, e). (r, butlast (h_dates e), h_mmr e))) (mmr_history parse c1 s pl ds)
      = map_sum id (map (\<lambda>(r, e). (r, butlast (h_dates e), h_mmr e))) (mmr_history parse c2 s pl ds)"
  proof (cases "resolve_date_start parse (c2 0) ds")
    case None
    then show ?thesis using same by (simp add: mmr_history_unparsed)
  next
    case (Some d)
    then have "mmr_history parse c1 s pl ds
        = append_current c1 (ratings pl) 1 (group_history (participants_query s (discord_id pl) d))"
      and "mmr_history parse c2 s pl ds
        = append_current c2 (ratings pl) 1 (group_history (participants_query s (discord_id pl) d))"
      using same by (simp_all add: mmr_history_bound)
    then show ?thesis
      using append_current_clock_free[of c1 "ratings pl" 1
          "group_history (participants_query s (discord_id pl) d)" c2 1]
      by simp
  qed
next
  fix series
  assume "mmr_history parse clock s pl ds = Inr series"
  then show "mmr_history_command parse clock temp_name fig s pl ds =
          (Inr \<lparr>pf_filename = temp_name,
                pf_image = fig @ map (\<lambda>(r, e). Plot (h_dates e) (h_mmr e)) series
                             @ [Legend (map fst series),
                                Title (''MMR variation in the last month for '' @ name pl),
                                Glow_effects]\<rparr>,
           fig @ map (\<lambda>(r, e). Plot (h_dates e) (h_mmr e)) series
               @ [Legend (map fst series),
                  Title (''MMR variation in the last month for '' @ name pl),
                  Glow_effects])"
    by (rule mmr_history_command_sent)
next
  fix err
  assume e: "mmr_history parse clock s pl ds = Inl err"
  from mmr_history_command_raised[OF e]
  show "fst (mmr_history_command parse clock temp_name fig s pl ds) = Inl err"
    by blast
  from mmr_history_command_raised[OF e]
  show "\<exists>plotted. snd (mmr_history_command parse clock temp_name fig s pl ds) = fig @ plotted"
    by blast
next
  fix series i
  assume a: "mmr_history parse clock s pl ds = Inr series \<and> i < length series"
  obtain r e where re: "series ! i = (r, e)" by (cases "series ! i")
  from a have run: "mmr_history parse clock s pl ds = Inr series" and i: "i < length series"
    by simp_all
  from mmr_history_nth[OF run i re] show "last (h_dates (snd (series ! i))) = clock (Suc i)"
    by (auto simp: re)
qed

text \<open>The example run an hour later: the same series up to the final dates. A first run
  on a fresh figure leaves two plots, the legend, the title and the glow effect.\<close>

theorem C9_witness:
  "map_sum id (map (\<lambda>(r, e). (r, butlast (h_dates e), h_mmr e)))
      (mmr_history ex_parse ex_clock_later ex_store ex_player None)
     = Inr [(''mid'', [200], [25, 23]), (''support'', [300], [22, 24])]
   \<and> snd (mmr_history_command ex_parse ex_clock ''tmp1.png'' [] ex_store ex_player None)
     = [Plot [200, 1001] [25, 23], Plot [300, 1002] [22, 24],
        Legend [''mid'', ''support''], Title ''MMR variation in the last month for P'',
        Glow_effects]"
proof -
  have same: "resolve_date_start ex_parse (ex_clock 0) None
            = resolve_date_start ex_parse (ex_clock_later 0) None"
    by (simp add: resolve_date_start_def ex_parse_def)
  note inst = C9_what_the_rating_history_depends_on[of ex_parse ex_clock None ex_clock_later
      ex_store ex_player ex_clock "''tmp1.png''" "[]"]
  have a: "map_sum id (map (\<lambda>(r, e). (r, butlast (h_dates e), h_mmr e)))
      (mmr_history ex_parse ex_clock_later ex_store ex_player None)
     = Inr [(''mid'', [200], [25, 23]), (''support'', [300], [22, 24])]"
    using inst same by (simp add: ex_history)
  have b: "snd (mmr_history_command ex_parse ex_clock ''tmp1.png'' [] ex_store ex_player None)
     = [Plot [200, 1001] [25, 23], Plot [300, 1002] [22, 24],
        Legend [''mid'', ''support''], Title ''MMR variation in the last month for P'',
        Glow_effects]"
    using inst ex_history by (simp add: ex_player_def)
  show ?thesis using a b by blast
qed

text \<open>
  The claim as written fails. The same store and the same argument, one hour apart, give
  two different sets of series. And with the same clock readings and the same file name, a
  second run that starts from the figure left by the first sends a different file than the
  first: its image still shows the plots of the first run.
\<close>

theorem C9_counterexample:
  "mmr_history ex_parse ex_clock ex_store ex_player None
     \<noteq> mmr_history ex_parse ex_clock_later ex_store ex_player None
   \<and> fst (mmr_history_command ex_parse ex_clock ''tmp1.png''
            (snd (mmr_history_command ex_parse ex_clock ''tmp1.png'' [] ex_store ex_player None))
            ex_store ex_player None)
     \<noteq> fst (mmr_history_command ex_parse ex_clock ''tmp1.png'' [] ex_store ex_player None)"
  by (simp add: mmr_history_command_def mmr_history_def history_participants_def Let_def
      resolve_date_start_def ex_parse_def
      ex_clock_def ex_clock_later_def ex_player_def participants_query_def player_join_def ex_store_def
      ex_games_def ex_participants_def group_history_def)

subsection \<open>Wins\<close>

lemma history_wins:
  "length (filter (\<lambda>row. hr_result row = ''Win'') (history get_name games_list))
     = length (filter (\<lambda>(g, p). gp_team p = g_winner g) games_list)"
  by (induction games_list) (auto simp: history_def split: if_splits)

lemma map_of_add_game:
  "map_of (add_game key (g, p) acc) k =
     (if k = key p
      then Some \<lparr>rs_games = (case map_of acc k of None \<Rightarrow> 0 | Some st \<Rightarrow> rs_games st) + 1,
                 rs_wins = (case map_of acc k of None \<Rightarrow> 0 | Some st \<Rightarrow> rs_wins st)
                             + (if gp_team p = g_winner g then 1 else 0)\<rparr>
      else map_of acc k)"
  by (induction acc) auto

lemma keys_add_game:
  "map fst (add_game key (g, p) acc) =
     (case map_of acc (key p) of None \<Rightarrow> map fst acc @ [key p] | Some st \<Rightarrow> map fst acc)"
  by (induction acc) (auto split: option.splits)

lemma set_keys_add_game: "fst ` set (add_game key (g, p) acc) = insert (key p) (fst ` set acc)"
proof -
  have "set (map fst (add_game key (g, p) acc)) = insert (key p) (set (map fst acc))"
  proof (cases "map_of acc (key p)")
    case None
    then show ?thesis by (simp add: keys_add_game)
  next
    case (Some st)
    then have "key p \<in> fst ` set acc" by (metis map_of_eq_None_iff option.distinct(1))
    then show ?thesis using Some by (auto simp: keys_add_game)
  qed
  then show ?thesis by simp
qed

lemma distinct_add_game:
  "distinct (map fst acc) \<Longrightarrow> distinct (map fst (add_game key (g, p) acc))"
  by (auto simp: keys_add_game map_of_eq_None_iff split: option.splits)

lemma fold_add_game_distinct:
  "distinct (map fst acc) \<Longrightarrow> distinct (map fst (fold (add_game key) rows acc))"
proof (induction rows arbitrary: acc)
  case Nil
  then show ?case by simp
next
  case (Cons x rows)
  obtain g p where x: "x = (g, p)" by (cases x)
  show ?case unfolding x using Cons by (simp add: distinct_add_game)
qed

lemma fold_add_game_keys:
  "fst ` set (fold (add_game key) rows acc) = fst ` set acc \<union> (\<lambda>(g, p). key p) ` set rows"
proof (induction rows arbitrary: acc)
  case Nil
  then show ?case by simp
next
  case (Cons x rows)
  obtain g p where x: "x = (g, p)" by (cases x)
  have "fst ` set (fold (add_game key) (x # rows) acc)
          = fst ` set (add_game key (g, p) acc) \<union> (\<lambda>(g, p). key p) ` set rows"
    by (simp add: x Cons.IH)
  also have "\<dots> = insert (key p) (fst ` set acc) \<union> (\<lambda>(g, p). key p) ` set rows"
    by (simp only: set_keys_add_game)
  finally show ?case by (simp add: x)
qed

lemma fold_add_game_map_of:
  "map_of (fold (add_game key) rows acc) k =
     (if filter (\<lambda>(g, p). key p = k) rows = [] then map_of acc k
      else Some \<lparr>rs_games = (case map_of acc k of None \<Rightarrow> 0 | Some st \<Rightarrow> rs_games st)
                    + int (length (filter (\<lambda>(g, p). key p = k) rows)),
                 rs_wins = (case map_of acc k of None \<Rightarrow> 0 | Some st \<Rightarrow> rs_wins st)
                    + int (length (filter (\<lambda>(g, p). key p = k \<and> gp_team p = g_winner g) rows))\<rparr>)"
proof (induction rows arbitrary: acc)
  case Nil
  then show ?case by simp
next
  case (Cons x rows)
  obtain g p where x: "x = (g, p)" by (cases x)
  have none: "filter (\<lambda>(g, p). key p = k) rows = [] \<Longrightarrow>
      filter (\<lambda>(g, p). key p = k \<and> gp_team p = g_winner g) rows = []"
    by (auto simp: filter_empty_conv)
  show ?case
    unfolding x using none by (simp add: Cons.IH map_of_add_game split: option.splits)
qed

lemma aggregate_entry:
  assumes "(k, st) \<in> set (aggregate key rows)"
  shows "rs_games st = int (length (filter (\<lambda>(g, p). key p = k) rows))
       \<and> rs_wins st = int (length (filter (\<lambda>(g, p). key p = k \<and> gp_team p = g_winner g) rows))
       \<and> filter (\<lambda>(g, p). key p = k) rows \<noteq> []"
proof -
  have "distinct (map fst (aggregate key rows))"
    by (simp add: aggregate_def fold_add_game_distinct)
  then have "map_of (aggregate key rows) k = Some st"
    using assms by simp
  then show ?thesis
    by (auto simp: aggregate_def fold_add_game_map_of split: if_splits)
qed

text \<open>
  C7. In the match history the outcome attributed to a participant row is a win if and only
  if the team of the row equals the winning team of its game, and a loss otherwise; the
  result column is this predicate applied row by row. In a grouping of participant rows
  under any key (the role, the character), the wins of a group are the count of the rows
  of the group whose team is the winning team of their game, which is the number of rows
  of the group that the match history shows as a win; the games of a group are the count
  of its rows, at least one; every row falls into one group. The groupings by role and by
  character are the two instances.
\<close>

theorem C7_win_iff_team_is_winner:
  "(map hr_result (history get_name [(g, p)]) = [''Win''] \<longleftrightarrow> gp_team p = g_winner g)
   \<and> (map hr_result (history get_name [(g, p)]) = [''Loss''] \<longleftrightarrow> gp_team p \<noteq> g_winner g)
   \<and> map hr_result (history get_name games_list)
      = map (\<lambda>(g, p). if gp_team p = g_winner g then ''Win'' else ''Loss'') games_list
   \<and> (\<forall>(k, st) \<in> set (aggregate key rows).
         rs_wins st = int (length (filter (\<lambda>(g, p). key p = k \<and> gp_team p = g_winner g) rows))
         \<and> rs_wins st = int (length (filter (\<lambda>row. hr_result row = ''Win'')
                                  (history get_name (filter (\<lambda>(g, p). key p = k) rows))))
         \<and> rs_games st = int (length (filter (\<lambda>(g, p). key p = k) rows))
         \<and> 1 \<le> rs_games st)
   \<and> distinct (map fst (aggregate key rows))
   \<and> (\<forall>(g, p) \<in> set rows. key p \<in> fst ` set (aggregate key rows))
   \<and> (\<forall>(r, st) \<in> set (aggregate_by_role s pl bound).
         rs_wins st = int (length (filter (\<lambda>(g, p). gp_role p = r \<and> gp_team p = g_winner g)
                                  (aggregated_rows s pl bound))))
   \<and> (\<forall>(c, st) \<in> set (aggregate_by_character s pl bound).
         rs_wins st = int (length (filter (\<lambda>(g, p). gp_champion_id p = c \<and> gp_team p = g_winner g)
                                  (aggregated_rows s pl bound))))"
proof -
  have a: "map hr_result (history get_name [(g, p)]) = [''Win''] \<longleftrightarrow> gp_team p = g_winner g"
    by (auto simp: history_def)
  have b: "map hr_result (history get_name [(g, p)]) = [''Loss''] \<longleftrightarrow> gp_team p \<noteq> g_winner g"
    by (auto simp: history_def)
  have c: "map hr_result (history get_name games_list)
      = map (\<lambda>(g, p). if gp_team p = g_winner g then ''Win'' else ''Loss'') games_list"
    by (auto simp: history_def)
  have d: "\<forall>(k, st) \<in> set (aggregate key rows).
         rs_wins st = int (length (filter (\<lambda>(g, p). key p = k \<and> gp_team p = g_winner g) rows))
         \<and> rs_wins st = int (length (filter (\<lambda>row. hr_result row = ''Win'')
                                  (history get_name (filter (\<lambda>(g, p). key p = k) rows))))
         \<and> rs_games st = int (length (filter (\<lambda>(g, p). key p = k) rows))
         \<and> 1 \<le> rs_games st"
  proof (clarify)
    fix k st assume "(k, st) \<in> set (aggregate key rows)"
    from aggregate_entry[OF this] have
      gm: "rs_games st = int (length (filter (\<lambda>(g, p). key p = k) rows))" and
      wn: "rs_wins st = int (length (filter (\<lambda>(g, p). key p = k \<and> gp_team p = g_winner g) rows))" and
      ne: "filter (\<lambda>(g, p). key p = k) rows \<noteq> []"
      by auto
    have "filter (\<lambda>(g, p). gp_team p = g_winner g) (filter (\<lambda>(g, p). key p = k) rows)
        = filter (\<lambda>(g, p). key p = k \<and> gp_team p = g_winner g) rows"
      by (induction rows) auto
    then have hw: "rs_wins st = int (length (filter (\<lambda>row. hr_result row = ''Win'')
                                  (history get_name (filter (\<lambda>(g, p). key p = k) rows))))"
      using wn by (simp add: history_wins)
    have "1 \<le> rs_games st" using gm ne by (cases "filter (\<lambda>(g, p). key p = k) rows") auto
    then show "rs_wins st = int (length (filter (\<lambda>(g, p). key p = k \<and> gp_team p = g_winner g) rows))
         \<and> rs_wins st = int (length (filter (\<lambda>row. hr_result row = ''Win'')
                                  (history get_name (filter (\<lambda>(g, p). key p = k) rows))))
         \<and> rs_games st = int (length (filter (\<lambda>(g, p). key p = k) rows))
         \<and> 1 \<le> rs_games st"
      using gm wn hw by blast
  qed
  have e: "distinct (map fst (aggregate key rows))"
    by (simp add: aggregate_def fold_add_game_distinct)
  have f: "\<forall>(g, p) \<in> set rows. key p \<in> fst ` set (aggregate key rows)"
    by (auto simp: aggregate_def fold_add_game_keys)
  have g: "\<forall>(r, st) \<in> set (aggregate_by_role s pl bound).
         rs_wins st = int (length (filter (\<lambda>(g, p). gp_role p = r \<and> gp_team p = g_winner g)
                                  (aggregated_rows s pl bound)))"
    unfolding aggregate_by_role_def using aggregate_entry by fastforce
  have h: "\<forall>(c, st) \<in> set (aggregate_by_character s pl bound).
         rs_wins st = int (length (filter (\<lambda>(g, p). gp_champion_id p = c \<and> gp_team p = g_winner g)
                                  (aggregated_rows s pl bound)))"
    unfolding aggregate_by_character_def using aggregate_entry by fastforce
  show ?thesis using a b c d e f g h by blast
qed

text \<open>The example player over all three games: a win, a loss, a win in the match history;
  two wins of two games in support and no win of one game in mid in the grouping by role.\<close>

lemma ex_aggregate_by_role: "aggregate_by_role ex_store ex_player None = ex_roles_stats"
  by (simp add: aggregate_by_role_def aggregate_def aggregated_rows_def player_join_def
      ex_store_def ex_player_def ex_games_def ex_participants_def ex_roles_stats_def)

theorem C7_witness:
  "map hr_result (history (\<lambda>c. None) (aggregated_rows ex_store ex_player None))
     = [''Win'', ''Loss'', ''Win'']
   \<and> int (length (filter (\<lambda>(g, p). gp_role p = ''support'' \<and> gp_team p = g_winner g)
                    (aggregated_rows ex_store ex_player None))) = 2"
proof -
  note inst = C7_win_iff_team_is_winner[of "\<lambda>c. None" _ _ "aggregated_rows ex_store ex_player None"
      _ _ ex_store ex_player None]
  have "map hr_result (history (\<lambda>c. None) (aggregated_rows ex_store ex_player None))
      = map (\<lambda>(g, p). if gp_team p = g_winner g then ''Win'' else ''Loss'')
          (aggregated_rows ex_store ex_player None)"
    using inst by blast
  then have a: "map hr_result (history (\<lambda>c. None) (aggregated_rows ex_store ex_player None))
     = [''Win'', ''Loss'', ''Win'']"
    by (simp add: aggregated_rows_def player_join_def ex_store_def ex_player_def ex_games_def
        ex_participants_def)
  have "(''support'', \<lparr>rs_games = 2, rs_wins = 2\<rparr>) \<in> set (aggregate_by_role ex_store ex_player None)"
    by (simp add: ex_aggregate_by_role ex_roles_stats_def)
  then have b: "int (length (filter (\<lambda>(g, p). gp_role p = ''support'' \<and> gp_team p = g_winner g)
                    (aggregated_rows ex_store ex_player None))) = 2"
    using inst by fastforce
  show ?thesis using a b by blast
qed

subsection \<open>Win rates\<close>

lemma mmr_rows_no_zero_division:
  "\<forall>(role, st) \<in> set stats. 1 \<le> rs_games st \<Longrightarrow> mmr_rows rts stats \<noteq> Inl ZeroDivisionError"
  by (induction stats) (auto simp: winrate_def split: option.splits sum.splits)

lemma mmr_rows_returns:
  "\<forall>(role, st) \<in> set stats. 1 \<le> rs_games st \<and> map_of rts role \<noteq> None \<Longrightarrow>
   \<exists>rows. mmr_rows rts stats = Inr rows \<and> length rows = length stats"
  by (induction stats) (auto simp: winrate_def split: option.splits sum.splits)

lemma champions_rows_returns:
  "\<forall>(champion_id, st) \<in> set stats. 1 \<le> cs_games st \<Longrightarrow>
   \<exists>rows. champions_rows get_name stats = Inr rows \<and> length rows = length stats"
  by (induction stats) (auto simp: winrate_def split: option.splits sum.splits)

text \<open>
  C8. When every group of the per-role stats mapping and of the per-champion stats mapping
  has at least one game, the win rate division of \<open>mmr\<close> and of \<open>champions_stats\<close> never
  raises \<open>ZeroDivisionError\<close>: \<open>champions_stats\<close> returns a table with one row per group,
  and so does \<open>mmr\<close> when every role of the mapping has a rating row (its only other
  failure is the \<open>KeyError\<close> of a role without one).
\<close>

theorem C8_no_division_by_zero:
  assumes "\<forall>(role, st) \<in> set stats. 1 \<le> rs_games st"
    and "\<forall>(champion_id, st) \<in> set cstats. 1 \<le> cs_games st"
  shows "mmr pl stats \<noteq> Inl ZeroDivisionError
     \<and> ((\<forall>(role, st) \<in> set stats. map_of (ratings pl) role \<noteq> None) \<longrightarrow>
          (\<exists>table. mmr pl stats = Inr table \<and> length table = length stats))
     \<and> (\<exists>table. champions_stats get_name cstats = Inr table \<and> length table = length cstats)"
proof -
  have a: "mmr pl stats \<noteq> Inl ZeroDivisionError"
    using mmr_rows_no_zero_division[OF assms(1), of "ratings pl"]
    by (auto simp: mmr_def split: sum.splits)
  have b: "(\<forall>(role, st) \<in> set stats. map_of (ratings pl) role \<noteq> None) \<longrightarrow>
          (\<exists>table. mmr pl stats = Inr table \<and> length table = length stats)"
  proof
    assume "\<forall>(role, st) \<in> set stats. map_of (ratings pl) role \<noteq> None"
    with assms(1) have "\<forall>(role, st) \<in> set stats. 1 \<le> rs_games st \<and> map_of (ratings pl) role \<noteq> None"
      by auto
    from mmr_rows_returns[OF this] show "\<exists>table. mmr pl stats = Inr table \<and> length table = length stats"
      by (auto simp: mmr_def)
  qed
  have c: "\<exists>table. champions_stats get_name cstats = Inr table \<and> length table = length cstats"
    using champions_rows_returns[OF assms(2), of get_name] by (auto simp: champions_stats_def)
  show ?thesis using a b c by blast
qed


text \<open>The precondition holds on the example mappings, and the tables have a row per group.\<close>

theorem C8_witness:
  "mmr ex_player ex_roles_stats \<noteq> Inl ZeroDivisionError
   \<and> (\<exists>table. mmr ex_player ex_roles_stats = Inr table \<and> length table = 2)
   \<and> (\<exists>table. champions_stats (\<lambda>c. None) ex_champions_stats = Inr table \<and> length table = 2)"
proof -
  have a: "\<forall>(role, st) \<in> set ex_roles_stats. 1 \<le> rs_games st"
    by (simp add: ex_roles_stats_def)
  have b: "\<forall>(champion_id, st) \<in> set ex_champions_stats. 1 \<le> cs_games st"
    by (simp add: ex_champions_stats_def)
  have c: "\<forall>(role, st) \<in> set ex_roles_stats. map_of (ratings ex_player) role \<noteq> None"
    by (simp add: ex_roles_stats_def ex_player_def)
  have l: "length ex_roles_stats = 2" "length ex_champions_stats = 2"
    by (simp_all add: ex_roles_stats_def ex_champions_stats_def)
  from C8_no_division_by_zero[OF a b, of ex_player "\<lambda>c. None"] c l show ?thesis
    by simp
qed

text \<open>The grouping by role of the specification meets the precondition; a group without
  games does raise.\<close>

lemma mmr_of_aggregate_by_role:
  "mmr pl (aggregate_by_role s pl bound) \<noteq> Inl ZeroDivisionError"
proof -
  have "\<forall>(role, st) \<in> set (aggregate_by_role s pl bound). 1 \<le> rs_games st"
  proof (clarify)
    fix role st assume "(role, st) \<in> set (aggregate_by_role s pl bound)"
    from aggregate_entry[OF this[unfolded aggregate_by_role_def]]
    show "1 \<le> rs_games st"
      by (cases "filter (\<lambda>(g, p). gp_role p = role) (aggregated_rows s pl bound)") auto
  qed
  from mmr_rows_no_zero_division[OF this, of "ratings pl"] show ?thesis
    by (auto simp: mmr_def split: sum.splits)
qed

lemma zero_games_raises:
  "mmr ex_player [(''mid'', \<lparr>rs_games = 0, rs_wins = 0\<rparr>)] = Inl ZeroDivisionError"
  by (simp add: mmr_def winrate_def ex_player_def)

subsection \<open>The order of the rank table\<close>

lemma insort_key_map_rows:
  "insort_key f (h x) (map h ys) = map h (insort_key (\<lambda>y. f (h y)) x ys)"
  by (induction ys) auto

lemma sort_key_map_rows:
  "sort_key f (map h xs) = map h (sort_key (\<lambda>y. f (h y)) xs)"
  by (induction xs) (auto simp: insort_key_map_rows)

lemma insort_key_same_order:
  "\<forall>y \<in> set ys. (f x \<le> f y) = (g x \<le> g y) \<Longrightarrow> insort_key f x ys = insort_key g x ys"
  by (induction ys) auto

lemma sort_key_same_order:
  "\<forall>x \<in> set xs. \<forall>y \<in> set xs. (f x \<le> f y) = (g x \<le> g y) \<Longrightarrow> sort_key f xs = sort_key g xs"
proof (induction xs)
  case Nil
  then show ?case by simp
next
  case (Cons x xs)
  have "sort_key f xs = sort_key g xs" using Cons by simp
  moreover have "insort_key f x (sort_key g xs) = insort_key g x (sort_key g xs)"
    by (rule insort_key_same_order) (use Cons.prems in simp)
  ultimately show ?case by simp
qed

lemma digit_codes: "map of_char ''0123456789'' = [48..<58::nat]"
  by (simp add: upt_rec)

lemma of_char_digit_char:
  assumes "n \<le> 9"
  shows "(of_char (digit_char n) :: nat) = 48 + n"
proof -
  have n: "n < length ''0123456789''" using assms by simp
  have "of_char (digit_char n) = map of_char ''0123456789'' ! n"
    unfolding digit_char_def using assms n by (simp only: nth_map mod_less)
  also have "\<dots> = [48..<58] ! n" by (simp only: digit_codes)
  also have "\<dots> = 48 + n" by (rule nth_upt) (use assms in simp)
  finally show ?thesis .
qed

lemma digit_char_less: "a \<le> 9 \<Longrightarrow> b \<le> 9 \<Longrightarrow> (digit_char a < digit_char b) = (a < b)"
  by (simp add: less_char_def of_char_digit_char)

lemma digit_char_eq: "a \<le> 9 \<Longrightarrow> b \<le> 9 \<Longrightarrow> (digit_char a = digit_char b) = (a = b)"
  by (metis of_char_digit_char add_left_cancel)

lemma ordinal_digit: "n \<le> 9 \<Longrightarrow> ordinal n = digit_char n # nth_suffix n"
  by (simp add: ordinal_def str_nat.simps)

lemma ordinal_le: "a \<le> 9 \<Longrightarrow> b \<le> 9 \<Longrightarrow> (ordinal a \<le> ordinal b) = (a \<le> b)"
  by (auto simp: ordinal_digit digit_char_less digit_char_eq)

text \<open>
  C10. The rows of the rank table are in ascending order of their rank strings, compared
  as strings. For a player all of whose ranks are at most 9 the table is the rows in
  ascending order of the numeric rank (equal ranks in the order of the dictionary). With
  ranks 2 and 10 it is not: the example player is 2nd in top and 10th in support and mid,
  and the table shows both rows of rank 10 before the row of rank 2.
\<close>

theorem C10_rank_rows_sorted_as_strings:
  "sorted (map snd (rank get_rank pl))
   \<and> ((\<forall>(role, rating) \<in> set (ratings pl). get_rank rating \<le> 9) \<longrightarrow>
        rank get_rank pl = map (rank_row get_rank) (sort_key get_rank (map snd (ratings pl))))
   \<and> rank ex_get_rank ex_player = [(''Support'', ''10th''), (''Mid'', ''10th''), (''Top'', ''2nd'')]
   \<and> map (rank_row ex_get_rank) (sort_key ex_get_rank (map snd (ratings ex_player)))
        = [(''Top'', ''2nd''), (''Support'', ''10th''), (''Mid'', ''10th'')]"
proof -
  have a: "sorted (map snd (rank get_rank pl))"
    unfolding rank_def by (rule sorted_sort_key)
  have b: "(\<forall>(role, rating) \<in> set (ratings pl). get_rank rating \<le> 9) \<longrightarrow>
        rank get_rank pl = map (rank_row get_rank) (sort_key get_rank (map snd (ratings pl)))"
  proof
    assume small: "\<forall>(role, rating) \<in> set (ratings pl). get_rank rating \<le> 9"
    have "\<forall>x \<in> set (map snd (ratings pl)). \<forall>y \<in> set (map snd (ratings pl)).
            (snd (rank_row get_rank x) \<le> snd (rank_row get_rank y)) = (get_rank x \<le> get_rank y)"
    proof (intro ballI)
      fix x y
      assume "x \<in> set (map snd (ratings pl))" and "y \<in> set (map snd (ratings pl))"
      then have "get_rank x \<le> 9" and "get_rank y \<le> 9" using small by auto
      then show "(snd (rank_row get_rank x) \<le> snd (rank_row get_rank y)) = (get_rank x \<le> get_rank y)"
        by (simp add: rank_row_def ordinal_le)
    qed
    then have eq: "sort_key (\<lambda>y. snd (rank_row get_rank y)) (map snd (ratings pl))
             = sort_key get_rank (map snd (ratings pl))"
      by (rule sort_key_same_order)
    have "rank get_rank pl = sort_key snd (map (rank_row get_rank) (map snd (ratings pl)))"
      by (simp only: rank_def)
    also have "\<dots> = map (rank_row get_rank)
                        (sort_key (\<lambda>y. snd (rank_row get_rank y)) (map snd (ratings pl)))"
      by (rule sort_key_map_rows)
    also have "\<dots> = map (rank_row get_rank) (sort_key get_rank (map snd (ratings pl)))"
      by (simp only: eq)
    finally show "rank get_rank pl = map (rank_row get_rank) (sort_key get_rank (map snd (ratings pl)))" .
  qed
  have c: "rank ex_get_rank ex_player = [(''Support'', ''10th''), (''Mid'', ''10th''), (''Top'', ''2nd'')]"
    by (simp add: rank_def rank_row_def ex_get_rank_def ex_player_def capitalize_def upper_char_def
      lower_char_def ordinal_def str_nat.simps nth_suffix_def digit_char_def)
  have d: "map (rank_row ex_get_rank) (sort_key ex_get_rank (map snd (ratings ex_player)))
        = [(''Top'', ''2nd''), (''Support'', ''10th''), (''Mid'', ''10th'')]"
    by (simp add: rank_row_def ex_get_rank_def ex_player_def capitalize_def upper_char_def
      lower_char_def ordinal_def str_nat.simps nth_suffix_def digit_char_def)
  show ?thesis using a b c d by blast
qed

text \<open>Single-digit ranks on the example player: the table is in numeric order.\<close>

theorem C10_witness:
  "rank ex_get_rank_small ex_player = [(''Mid'', ''1st''), (''Top'', ''1st''), (''Support'', ''5th'')]"
proof -
  have small: "\<forall>(role, rating) \<in> set (ratings ex_player). ex_get_rank_small rating \<le> 9"
    by (simp add: ex_player_def ex_get_rank_small_def)
  have "rank ex_get_rank_small ex_player
      = map (rank_row ex_get_rank_small) (sort_key ex_get_rank_small (map snd (ratings ex_player)))"
    using C10_rank_rows_sorted_as_strings[of ex_get_rank_small ex_player] small by blast
  also have "\<dots> = [(''Mid'', ''1st''), (''Top'', ''1st''), (''Support'', ''5th'')]"
    by (simp add: rank_row_def ex_get_rank_small_def ex_player_def capitalize_def upper_char_def
      lower_char_def ordinal_def str_nat.simps nth_suffix_def digit_char_def)
  finally show ?thesis .
qed

subsection \<open>The leaderboard\<close>

lemma filter_take_prefix: "\<exists>m. filter P (take n xs) = take m (filter P xs)"
proof (induction xs arbitrary: n)
  case Nil
  then show ?case by simp
next
  case (Cons x xs)
  show ?case
  proof (cases n)
    case 0
    then show ?thesis by (intro exI[of _ 0]) simp
  next
    case (Suc k)
    from Cons.IH[of k] obtain m where m: "filter P (take k xs) = take m (filter P xs)" ..
    show ?thesis
    proof (cases "P x")
      case True
      then show ?thesis using Suc m by (intro exI[of _ "Suc m"]) simp
    next
      case False
      then show ?thesis using Suc m by (intro exI[of _ m]) simp
    qed
  qed
qed

lemma map_sort_key_key: "map f (sort_key f xs) = sort (map f xs)"
  by (rule sym, rule properties_for_sort) simp_all

lemma sort_mset_eq: "mset xs = mset ys \<Longrightarrow> sort xs = sort ys"
  by (metis mset_sort properties_for_sort sorted_sort)

lemma role_ranking_sorted: "sorted_wrt (\<lambda>a b. pr_mmr a \<ge> pr_mmr b) (role_ranking s r)"
proof -
  have "sorted (map (\<lambda>x. - pr_mmr x)
          (sort_key (\<lambda>x. - pr_mmr x) (filter (\<lambda>x. pr_role x = r) (player_ratings s))))"
    by (rule sorted_sort_key)
  then have "sorted_wrt (\<lambda>a b. pr_mmr a \<ge> pr_mmr b)
          (sort_key (\<lambda>x. - pr_mmr x) (filter (\<lambda>x. pr_role x = r) (player_ratings s)))"
    by (simp add: sorted_map)
  then show ?thesis unfolding role_ranking_def by (rule sorted_wrt_take)
qed

lemma role_ranking_ratings:
  assumes "mset (player_ratings s') = mset (player_ratings s)"
  shows "map pr_mmr (role_ranking s' r) = map pr_mmr (role_ranking s r)"
proof -
  have key: "\<And>t. map pr_mmr (role_ranking t r)
      = take 20 (map uminus (sort (map (\<lambda>x. - pr_mmr x) (filter (\<lambda>x. pr_role x = r) (player_ratings t)))))"
  proof -
    fix t
    have "map pr_mmr (role_ranking t r)
        = take 20 (map uminus (map (\<lambda>x. - pr_mmr x)
            (sort_key (\<lambda>x. - pr_mmr x) (filter (\<lambda>x. pr_role x = r) (player_ratings t)))))"
      by (simp add: role_ranking_def take_map o_def)
    then show "map pr_mmr (role_ranking t r)
      = take 20 (map uminus (sort (map (\<lambda>x. - pr_mmr x) (filter (\<lambda>x. pr_role x = r) (player_ratings t)))))"
      by (simp only: map_sort_key_key)
  qed
  have "mset (map (\<lambda>x. - pr_mmr x) (filter (\<lambda>x. pr_role x = r) (player_ratings s')))
      = mset (map (\<lambda>x. - pr_mmr x) (filter (\<lambda>x. pr_role x = r) (player_ratings s)))"
    using assms by simp
  then have "sort (map (\<lambda>x. - pr_mmr x) (filter (\<lambda>x. pr_role x = r) (player_ratings s')))
      = sort (map (\<lambda>x. - pr_mmr x) (filter (\<lambda>x. pr_role x = r) (player_ratings s)))"
    by (rule sort_mset_eq)
  then show ?thesis by (simp only: key)
qed

lemma role_ranking_ties:
  "\<exists>n. filter (\<lambda>x. pr_mmr x = k) (role_ranking s r)
        = take n (filter (\<lambda>x. pr_mmr x = k) (filter (\<lambda>x. pr_role x = r) (player_ratings s)))"
proof -
  obtain n where "filter (\<lambda>x. pr_mmr x = k) (role_ranking s r)
     = take n (filter (\<lambda>x. pr_mmr x = k)
         (sort_key (\<lambda>x. - pr_mmr x) (filter (\<lambda>x. pr_role x = r) (player_ratings s))))"
    unfolding role_ranking_def using filter_take_prefix by blast
  moreover have "filter (\<lambda>x. pr_mmr x = k)
         (sort_key (\<lambda>x. - pr_mmr x) (filter (\<lambda>x. pr_role x = r) (player_ratings s)))
       = filter (\<lambda>x. pr_mmr x = k) (filter (\<lambda>x. pr_role x = r) (player_ratings s))"
    using sort_key_stable[of "\<lambda>x. - pr_mmr x" "- k" "filter (\<lambda>x. pr_role x = r) (player_ratings s)"]
    by simp
  ultimately show ?thesis by auto
qed

lemma role_ranking_best:
  assumes "x \<in> set (player_ratings s)" and "pr_role x = r" and "x \<notin> set (role_ranking s r)"
    and "y \<in> set (role_ranking s r)"
  shows "pr_mmr x \<le> pr_mmr y"
proof -
  define l where "l = sort_key (\<lambda>x. - pr_mmr x) (filter (\<lambda>x. pr_role x = r) (player_ratings s))"
  have rr: "role_ranking s r = take 20 l" by (simp add: role_ranking_def l_def)
  have "sorted (map (\<lambda>x. - pr_mmr x) l)" unfolding l_def by (rule sorted_sort_key)
  then have "sorted (map (\<lambda>x. - pr_mmr x) (take 20 l @ drop 20 l))" by simp
  then have le: "\<forall>a \<in> set (take 20 l). \<forall>b \<in> set (drop 20 l). - pr_mmr a \<le> - pr_mmr b"
    unfolding map_append sorted_append by auto
  have "x \<in> set l" using assms(1,2) by (simp add: l_def)
  moreover have "set l = set (take 20 l) \<union> set (drop 20 l)"
    by (metis append_take_drop_id set_append)
  ultimately have "x \<in> set (drop 20 l)" using assms(3) rr by auto
  then show ?thesis using le assms(4) rr by auto
qed

text \<open>
  C1 (as the code has it). For every role and store the leaderboard query returns the rows
  of that role in non-increasing order of rating, cut to the 20 best: every row returned is
  a row of the store in that role, and no row of the role left out has a higher rating than
  a row returned. The sequence of ratings is the same for any two stores that hold the same
  rows. Rows of equal rating appear in the order in which the store scans them (the query
  has no second sort key). The table shows the ratings of the rows in that order with the
  ranks 1st, 2nd, ... by position.
\<close>

theorem C1_ranking_sorted_by_rating:
  "sorted_wrt (\<lambda>a b. pr_mmr a \<ge> pr_mmr b) (role_ranking s r)
   \<and> length (role_ranking s r) = min 20 (length (filter (\<lambda>x. pr_role x = r) (player_ratings s)))
   \<and> (\<forall>y \<in> set (role_ranking s r). y \<in> set (player_ratings s) \<and> pr_role y = r
         \<and> (\<forall>x \<in> set (player_ratings s).
               pr_role x = r \<and> x \<notin> set (role_ranking s r) \<longrightarrow> pr_mmr x \<le> pr_mmr y))
   \<and> (\<forall>s'. mset (player_ratings s') = mset (player_ratings s) \<longrightarrow>
         map pr_mmr (role_ranking s' r) = map pr_mmr (role_ranking s r))
   \<and> (\<forall>k. \<exists>n. filter (\<lambda>x. pr_mmr x = k) (role_ranking s r)
         = take n (filter (\<lambda>x. pr_mmr x = k) (filter (\<lambda>x. pr_role x = r) (player_ratings s))))
   \<and> map rk_mmr (ranking_table get_games s r) = map pr_mmr (role_ranking s r)
   \<and> map rk_rank (ranking_table get_games s r) = map ordinal [1..<Suc (length (role_ranking s r))]"
proof -
  have a: "sorted_wrt (\<lambda>a b. pr_mmr a \<ge> pr_mmr b) (role_ranking s r)"
    by (rule role_ranking_sorted)
  have b: "length (role_ranking s r) = min 20 (length (filter (\<lambda>x. pr_role x = r) (player_ratings s)))"
    by (simp add: role_ranking_def min.commute)
  have c: "\<forall>y \<in> set (role_ranking s r). y \<in> set (player_ratings s) \<and> pr_role y = r
         \<and> (\<forall>x \<in> set (player_ratings s).
               pr_role x = r \<and> x \<notin> set (role_ranking s r) \<longrightarrow> pr_mmr x \<le> pr_mmr y)"
  proof
    fix y assume y: "y \<in> set (role_ranking s r)"
    then have "y \<in> set (sort_key (\<lambda>x. - pr_mmr x) (filter (\<lambda>x. pr_role x = r) (player_ratings s)))"
      unfolding role_ranking_def by (rule in_set_takeD)
    then have "y \<in> set (player_ratings s) \<and> pr_role y = r" by simp
    then show "y \<in> set (player_ratings s) \<and> pr_role y = r
         \<and> (\<forall>x \<in> set (player_ratings s).
               pr_role x = r \<and> x \<notin> set (role_ranking s r) \<longrightarrow> pr_mmr x \<le> pr_mmr y)"
      using role_ranking_best[OF _ _ _ y] by blast
  qed
  have d: "\<forall>s'. mset (player_ratings s') = mset (player_ratings s) \<longrightarrow>
         map pr_mmr (role_ranking s' r) = map pr_mmr (role_ranking s r)"
    using role_ranking_ratings by blast
  have e: "\<forall>k. \<exists>n. filter (\<lambda>x. pr_mmr x = k) (role_ranking s r)
         = take n (filter (\<lambda>x. pr_mmr x = k) (filter (\<lambda>x. pr_role x = r) (player_ratings s)))"
    using role_ranking_ties by blast
  have f: "map rk_mmr (ranking_table get_games s r) = map pr_mmr (role_ranking s r)"
  proof -
    have "map rk_mmr (ranking_table get_games s r)
        = map pr_mmr (map snd (List.enumerate 0 (role_ranking s r)))"
      unfolding ranking_table_def by (simp add: split_beta o_def del: map_snd_enumerate)
    then show ?thesis by simp
  qed
  have g: "map rk_rank (ranking_table get_games s r) = map ordinal [1..<Suc (length (role_ranking s r))]"
  proof -
    have "map rk_rank (ranking_table get_games s r)
        = map (\<lambda>n. ordinal (n + 1)) (map fst (List.enumerate 0 (role_ranking s r)))"
      unfolding ranking_table_def by (simp add: split_beta o_def del: map_fst_enumerate)
    also have "\<dots> = map (\<lambda>n. ordinal (n + 1)) [0..<length (role_ranking s r)]" by simp
    also have "\<dots> = map ordinal (map Suc [0..<length (role_ranking s r)])" by (simp add: o_def)
    also have "\<dots> = map ordinal [1..<Suc (length (role_ranking s r))]"
      by (simp only: map_Suc_upt One_nat_def)
    finally show ?thesis .
  qed
  show ?thesis using a b c d e f g by blast
qed

text \<open>The same rows with A's row first: the same ratings, A before B.\<close>

theorem C1_witness:
  "map pr_mmr (role_ranking ex_rating_store_reordered ''jungle'') = [1500, 1500, 1400]
   \<and> map pr_player_id (role_ranking ex_rating_store_reordered ''jungle'') = [1, 2, 3]"
proof -
  have "mset (player_ratings ex_rating_store_reordered) = mset (player_ratings ex_rating_store)"
    by (simp add: ex_rating_store_def ex_rating_store_reordered_def)
  then have "map pr_mmr (role_ranking ex_rating_store_reordered ''jungle'')
      = map pr_mmr (role_ranking ex_rating_store ''jungle'')"
    using C1_ranking_sorted_by_rating[of ex_rating_store "''jungle''"] by blast
  also have "\<dots> = [1500, 1500, 1400]"
    by (simp add: role_ranking_def ex_rating_store_def)
  finally have "map pr_mmr (role_ranking ex_rating_store_reordered ''jungle'') = [1500, 1500, 1400]" .
  moreover have "map pr_player_id (role_ranking ex_rating_store_reordered ''jungle'') = [1, 2, 3]"
    by (simp add: role_ranking_def ex_rating_store_reordered_def)
  ultimately show ?thesis by simp
qed

text \<open>
  The claim as written fails: with A and B both at 1500 the ratings are not strictly
  descending, B (identifier 2) comes before A (identifier 1), and the same rows scanned in
  the other order come out as A before B.
\<close>

theorem C1_counterexample:
  "\<not> sorted_wrt (\<lambda>a b. pr_mmr a > pr_mmr b) (role_ranking ex_rating_store ''jungle'')
   \<and> map pr_player_id (role_ranking ex_rating_store ''jungle'') = [2, 1, 3]
   \<and> mset (player_ratings ex_rating_store_reordered) = mset (player_ratings ex_rating_store)
   \<and> map pr_player_id (role_ranking ex_rating_store_reordered ''jungle'') = [1, 2, 3]"
  by (simp add: role_ranking_def ex_rating_store_def ex_rating_store_reordered_def)

subsection \<open>A role that is not understood\<close>

text \<open>Whatever the score, the command ends by sending the table of the best match.\<close>

lemma ranking_always_queries:
  "extractOne role roles_list = Some (clean_role, score) \<Longrightarrow>
   \<exists>msgs. ranking extractOne roles_list get_games s role
            = Inr (msgs @ [Ranking_table (ranking_table get_games s clean_role)])"
  by (simp add: ranking_def)

text \<open>
  C2. The claim: when the best match of the role text scores below 80, the failure is
  reported and the leaderboard query does not run. The command does report the failure,
  but does not stop there: it goes on to query the store with the low-confidence role and
  sends the table. Here the text \<open>jgl\<close> matches jungle with score 45, and the command
  sends the failure message followed by the jungle leaderboard.
\<close>

theorem C2_low_score_still_queries:
  "ex_extractOne ''jgl'' ex_roles_list = Some (''jungle'', 45)
   \<and> ranking ex_extractOne ex_roles_list (\<lambda>rating. 0) ex_rating_store ''jgl''
     = Inr [Role_not_understood,
            Ranking_table
              [\<lparr>rk_rank = ''1st'', rk_name = ''B'', rk_mmr = 1500, rk_games = 0\<rparr>,
               \<lparr>rk_rank = ''2nd'', rk_name = ''A'', rk_mmr = 1500, rk_games = 0\<rparr>,
               \<lparr>rk_rank = ''3rd'', rk_name = ''C'', rk_mmr = 1400, rk_games = 0\<rparr>]]"
  by (simp add: ranking_def ranking_table_def role_ranking_def ex_extractOne_def ex_roles_list_def
      ex_rating_store_def enumerate_eq_zip ordinal_def str_nat.simps nth_suffix_def digit_char_def upt_rec)

end
